theory Spec2Isabelle
  imports Complex_Main "HOL-Library.Multiset"
begin
section \<open>Instants and the calendar of the JavaScript Date object\<close>

text \<open>
  A Date is its time value: the number of milliseconds since the epoch, an integer.
  The source does arithmetic on Dates (\<^verbatim>\<open>end - start\<close>), compares them and edits
  their local-time fields with \<^verbatim>\<open>setHours\<close>, \<^verbatim>\<open>setDate\<close> and \<^verbatim>\<open>setMonth\<close>.
  Local time is the time value shifted by the offset \<open>tz\<close> of the server's time zone
  (milliseconds east of UTC), taken as constant. The day and year arithmetic follows the
  definitions of the ECMAScript specification (Day, TimeWithinDay, DayFromYear,
  YearFromTime, MonthFromTime, DateFromTime, MakeDay, MakeDate).
\<close>

type_synonym instant = int

definition msPerDay :: int where
  "msPerDay = 1000 * 60 * 60 * 24"

definition Day :: "instant \<Rightarrow> int" where
  "Day t = t div msPerDay"

definition TimeWithinDay :: "instant \<Rightarrow> int" where
  "TimeWithinDay t = t mod msPerDay"

definition InLeapYear :: "int \<Rightarrow> bool" where
  "InLeapYear y = ((y mod 4 = 0 \<and> y mod 100 \<noteq> 0) \<or> y mod 400 = 0)"

definition DaysInYear :: "int \<Rightarrow> int" where
  "DaysInYear y = (if InLeapYear y then 366 else 365)"

definition DayFromYear :: "int \<Rightarrow> int" where
  "DayFromYear y =
     365 * (y - 1970) + (y - 1969) div 4 - (y - 1901) div 100 + (y - 1601) div 400"

text \<open>
  YearFromTime is specified as the largest year whose first day is not after the given
  day. It is computed here from an estimate that is off by at most one year; lemma
  \<open>YearFromDay_bounds\<close> below shows that the result is the specified one.
\<close>

definition YearFromDay :: "int \<Rightarrow> int" where
  "YearFromDay d =
     (let y = 1970 + (400 * d) div 146097 in
      if DayFromYear (y + 1) \<le> d then y + 1
      else if DayFromYear y \<le> d then y
      else y - 1)"

text \<open>The day number, within its year, of the first day of month \<open>m\<close> (0 is January).\<close>

definition MonthStart :: "bool \<Rightarrow> int \<Rightarrow> int" where
  "MonthStart leap m =
     (let l = (if leap then 1 else 0) in
      if m = 0 then 0
      else if m = 1 then 31
      else if m = 2 then 59 + l
      else if m = 3 then 90 + l
      else if m = 4 then 120 + l
      else if m = 5 then 151 + l
      else if m = 6 then 181 + l
      else if m = 7 then 212 + l
      else if m = 8 then 243 + l
      else if m = 9 then 273 + l
      else if m = 10 then 304 + l
      else 334 + l)"

definition DaysInMonth :: "int \<Rightarrow> int \<Rightarrow> int" where
  "DaysInMonth y m =
     (if m = 1 then (if InLeapYear y then 29 else 28)
      else if m = 3 \<or> m = 5 \<or> m = 8 \<or> m = 10 then 30
      else 31)"

definition DayWithinYear :: "int \<Rightarrow> int" where
  "DayWithinYear d = d - DayFromYear (YearFromDay d)"

definition MonthFromDay :: "int \<Rightarrow> int" where
  "MonthFromDay d =
     (let leap = InLeapYear (YearFromDay d); n = DayWithinYear d in
      if n < MonthStart leap 1 then 0
      else if n < MonthStart leap 2 then 1
      else if n < MonthStart leap 3 then 2
      else if n < MonthStart leap 4 then 3
      else if n < MonthStart leap 5 then 4
      else if n < MonthStart leap 6 then 5
      else if n < MonthStart leap 7 then 6
      else if n < MonthStart leap 8 then 7
      else if n < MonthStart leap 9 then 8
      else if n < MonthStart leap 10 then 9
      else if n < MonthStart leap 11 then 10
      else 11)"

definition DateFromDay :: "int \<Rightarrow> int" where
  "DateFromDay d =
     DayWithinYear d - MonthStart (InLeapYear (YearFromDay d)) (MonthFromDay d) + 1"

text \<open>
  MakeDay takes any month and any day of the month: the month carries into the year, and
  the day of the month is added to the first of that month, so that a day past the end
  of the month runs on into the following month.
\<close>

definition MakeDay :: "int \<Rightarrow> int \<Rightarrow> int \<Rightarrow> int" where
  "MakeDay year month date =
     (let ym = year + month div 12; mn = month mod 12 in
      DayFromYear ym + MonthStart (InLeapYear ym) mn + date - 1)"

definition MakeDate :: "int \<Rightarrow> int \<Rightarrow> instant" where
  "MakeDate day time = day * msPerDay + time"

definition MakeTime :: "int \<Rightarrow> int \<Rightarrow> int \<Rightarrow> int \<Rightarrow> int" where
  "MakeTime hour minute sec ms = hour * 3600000 + minute * 60000 + sec * 1000 + ms"

definition LocalTime :: "int \<Rightarrow> instant \<Rightarrow> int" where
  "LocalTime tz t = t + tz"

definition UTC :: "int \<Rightarrow> int \<Rightarrow> instant" where
  "UTC tz t = t - tz"

definition getFullYear :: "int \<Rightarrow> instant \<Rightarrow> int" where
  "getFullYear tz t = YearFromDay (Day (LocalTime tz t))"

definition getMonth :: "int \<Rightarrow> instant \<Rightarrow> int" where
  "getMonth tz t = MonthFromDay (Day (LocalTime tz t))"

definition getDate :: "int \<Rightarrow> instant \<Rightarrow> int" where
  "getDate tz t = DateFromDay (Day (LocalTime tz t))"

text \<open>\<^verbatim>\<open>d.setHours(h, m, s, ms)\<close>: the local day is kept, the time within it replaced.\<close>

definition setHours :: "int \<Rightarrow> instant \<Rightarrow> int \<Rightarrow> int \<Rightarrow> int \<Rightarrow> int \<Rightarrow> instant" where
  "setHours tz t h m s ms = UTC tz (MakeDate (Day (LocalTime tz t)) (MakeTime h m s ms))"

text \<open>\<^verbatim>\<open>d.setDate(n)\<close>: year, month and time within the day are kept.\<close>

definition setDate :: "int \<Rightarrow> instant \<Rightarrow> int \<Rightarrow> instant" where
  "setDate tz t n =
     UTC tz (MakeDate (MakeDay (getFullYear tz t) (getMonth tz t) n)
                      (TimeWithinDay (LocalTime tz t)))"

text \<open>\<^verbatim>\<open>d.setMonth(n)\<close>: year, day of the month and time within the day are kept.\<close>

definition setMonth :: "int \<Rightarrow> instant \<Rightarrow> int \<Rightarrow> instant" where
  "setMonth tz t n =
     UTC tz (MakeDate (MakeDay (getFullYear tz t) n (getDate tz t))
                      (TimeWithinDay (LocalTime tz t)))"

text \<open>\<^verbatim>\<open>Math.ceil(ms / (1000 * 60 * 60 * 24))\<close> on a difference of two instants.\<close>

definition ceilDays :: "int \<Rightarrow> int" where
  "ceilDays ms = - ((- ms) div msPerDay)"

text \<open>An instant given by its UTC calendar fields, for writing concrete inputs.\<close>

definition at_utc :: "int \<Rightarrow> int \<Rightarrow> int \<Rightarrow> int \<Rightarrow> int \<Rightarrow> int \<Rightarrow> int \<Rightarrow> instant" where
  "at_utc y m d h mi s ms = MakeDate (MakeDay y m d) (MakeTime h mi s ms)"


section \<open>Data model\<close>

text \<open>
  The rows of the store, as the Prisma client returns them. Amounts are whole numbers of
  currency units. \<open>p_transaction\<close> is the relation field that
  \<^verbatim>\<open>include: { transaction: ... }\<close> adds to a period read for the history report.
\<close>

record member =
  m_id :: nat
  m_name :: string
  m_membershipType :: string
  m_startDate :: instant
  m_endDate :: instant
  m_isActive :: bool

record membershipPackage =
  k_id :: nat
  k_name :: string
  k_durationMonths :: int
  k_price :: int

record transaction =
  t_id :: nat
  t_memberId :: nat
  t_packageId :: nat
  t_paymentMethodId :: nat
  t_amount :: int
  t_packageName :: string
  t_packageDuration :: int

record period =
  p_memberId :: nat
  p_startDate :: instant
  p_endDate :: instant
  p_packageName :: string
  p_duration :: int
  p_status :: string
  p_transactionId :: "nat option"

record hperiod = period +
  p_transaction :: "transaction option"

record store =
  members :: "member list"
  membershipPackages :: "membershipPackage list"
  transactions :: "transaction list"
  membershipPeriods :: "period list"

section \<open>Engagement analysis: \<^verbatim>\<open>analyzeMembershipPattern\<close> (services/analyticsService.js)\<close>

record gap =
  afterPeriod :: nat
  beforePeriod :: nat
  days :: int
  g_startDate :: instant
  g_endDate :: instant

text \<open>
  The returned object. \<open>averageGapDays\<close> is \<open>None\<close> when the object has no such key
  (reading it in JavaScript gives \<^verbatim>\<open>undefined\<close>).
\<close>

record analytics =
  totalPeriods :: nat
  totalDays :: int
  totalSpent :: int
  averageDuration :: int
  gaps :: "gap list"
  loyaltyScore :: int
  membershipType :: string
  averageGapDays :: "int option"

text \<open>
  The function sorts the array it is given in place (by start date, a stable sort) and
  works on the sorted array; the model returns the result only. A missing array
  (\<^verbatim>\<open>null\<close>) is treated as the empty one.
\<close>

text \<open>\<^verbatim>\<open>Math.round\<close>: the nearest integer, a half rounding up.\<close>

definition Math_round :: "rat \<Rightarrow> int" where
  "Math_round x = \<lfloor>x + 1 / 2\<rfloor>"

text \<open>The \<^verbatim>\<open>forEach\<close> that accumulates \<^verbatim>\<open>totalDays\<close> and \<^verbatim>\<open>totalSpent\<close>.\<close>

fun accumulate :: "hperiod list \<Rightarrow> int \<times> int \<Rightarrow> int \<times> int" where
  "accumulate [] (totalDays', totalSpent') = (totalDays', totalSpent')"
| "accumulate (period # rest) (totalDays', totalSpent') =
     (let days' = ceilDays (p_endDate period - p_startDate period) in
      accumulate rest
        (totalDays' + days',
         (case p_transaction period of
            Some tr \<Rightarrow> totalSpent' + t_amount tr
          | None \<Rightarrow> totalSpent')))"

text \<open>
  The loop \<^verbatim>\<open>for (let i = 1; i < sortedPeriods.length; i++)\<close>: called with index \<open>i\<close>
  on the list that starts at \<^verbatim>\<open>sortedPeriods[i - 1]\<close>.
\<close>

fun gapsFrom :: "nat \<Rightarrow> hperiod list \<Rightarrow> gap list" where
  "gapsFrom i (prev # cur # rest) =
     (let prevEnd = p_endDate prev;
          currentStart = p_startDate cur;
          gapDays = ceilDays (currentStart - prevEnd) in
      (if gapDays > 0
       then [\<lparr>afterPeriod = i - 1, beforePeriod = i, days = gapDays,
              g_startDate = prevEnd, g_endDate = currentStart\<rparr>]
       else []) @ gapsFrom (i + 1) (cur # rest))"
| "gapsFrom i _ = []"

definition analyzeMembershipPattern :: "hperiod list \<Rightarrow> analytics" where
  "analyzeMembershipPattern periods =
     (if length periods = 0 then
        \<lparr>totalPeriods = 0, totalDays = 0, totalSpent = 0, averageDuration = 0, gaps = [],
         loyaltyScore = 0, membershipType = ''new'', averageGapDays = None\<rparr>
      else
        let sortedPeriods = sort_key p_startDate periods;
            (totalDays', totalSpent') = accumulate sortedPeriods (0, 0);
            gaps' = gapsFrom 1 sortedPeriods;
            totalPeriods' = length periods;
            averageDuration' =
              (if totalPeriods' > 0 then rat_of_int totalDays' / rat_of_nat totalPeriods'
               else 0);
            totalGapDays = fold (\<lambda>gap sum. sum + days gap) gaps' 0;
            score = 0;
            score = (if totalPeriods' \<ge> 3 then score + 30 else score);
            score = (if totalGapDays < 30 then score + 25 else score);
            score = (if averageDuration' > 30 then score + 25 else score);
            score = (if totalSpent' > 1000000 then score + 20 else score);
            membershipType' =
              (if totalPeriods' \<ge> 5 then ''loyal''
               else if totalPeriods' \<ge> 3 then ''returning''
               else if totalPeriods' = 2 then ''second_time''
               else ''new'')
        in \<lparr>totalPeriods = totalPeriods', totalDays = totalDays', totalSpent = totalSpent',
            averageDuration = Math_round averageDuration', gaps = gaps',
            loyaltyScore = min 100 score, membershipType = membershipType',
            averageGapDays =
              Some (if length gaps' > 0
                    then Math_round (rat_of_int totalGapDays / rat_of_nat (length gaps'))
                    else 0)\<rparr>)"

text \<open>
  The loyalty score as the specification words it, for comparison: the gap bonus is
  granted when the mean of the gap sizes is under 30 days.
\<close>

definition spec_loyaltyScore :: "analytics \<Rightarrow> int" where
  "spec_loyaltyScore a =
     min 100
       ((if totalPeriods a \<ge> 3 then 30 else 0)
        + (if gaps a = [] \<or> sum_list (map days (gaps a)) < 30 * int (length (gaps a))
           then 25 else 0)
        + (if averageDuration a > 30 then 25 else 0)
        + (if totalSpent a > 1000000 then 20 else 0))"

text \<open>
  The inclusive day-span of a period, for comparison: the number of calendar days from
  the day of its first instant to the day of its last millisecond, both counted.
\<close>

definition spec_inclusiveDaySpan :: "int \<Rightarrow> hperiod \<Rightarrow> int" where
  "spec_inclusiveDaySpan tz p =
     Day (LocalTime tz (p_endDate p - 1)) - Day (LocalTime tz (p_startDate p)) + 1"

section \<open>Days remaining and status (routes/members.js, routes/public.js)\<close>

text \<open>
  The query for the periods that count: those of the member, with status
  \<^verbatim>\<open>'active'\<close> and \<^verbatim>\<open>endDate > now\<close>, ordered by \<^verbatim>\<open>endDate\<close> descending.
\<close>

definition activePeriods :: "instant \<Rightarrow> nat \<Rightarrow> period list \<Rightarrow> period list" where
  "activePeriods now memberId ps =
     sort_key (\<lambda>p. - p_endDate p)
       (filter (\<lambda>p. p_memberId p = memberId \<and> p_status p = ''active'' \<and> p_endDate p > now) ps)"

text \<open>The loop over the sorted periods. \<open>currentDate\<close> is never assigned in the loop.\<close>

fun remainingLoop :: "instant \<Rightarrow> period list \<Rightarrow> int \<Rightarrow> int" where
  "remainingLoop currentDate [] totalDays' = totalDays'"
| "remainingLoop currentDate (period # rest) totalDays' =
     (let periodStart = p_startDate period; periodEnd = p_endDate period in
      if periodStart > currentDate then
        remainingLoop currentDate rest (totalDays' + (ceilDays (periodEnd - periodStart) + 1))
      else if periodEnd > currentDate then
        remainingLoop currentDate rest (totalDays' + ceilDays (periodEnd - currentDate))
      else remainingLoop currentDate rest totalDays')"

definition totalRemainingDays :: "instant \<Rightarrow> member \<Rightarrow> period list \<Rightarrow> int" where
  "totalRemainingDays now member memberPeriods =
     (if length memberPeriods > 0
      then remainingLoop now (sort_key p_startDate memberPeriods) 0
      else ceilDays (m_endDate member - now))"

text \<open>
  What one stored period adds to the total at \<open>now\<close> for member \<open>i\<close>: nothing when
  the query leaves it out, otherwise the amount the loop adds for it.
\<close>

definition periodDays :: "instant \<Rightarrow> nat \<Rightarrow> period \<Rightarrow> int" where
  "periodDays now i p =
     (if p_memberId p = i \<and> p_status p = ''active'' \<and> p_endDate p > now
      then (if p_startDate p > now then ceilDays (p_endDate p - p_startDate p) + 1
            else ceilDays (p_endDate p - now))
      else 0)"

text \<open>
  The expiry test. The source reads the clock a second time for \<^verbatim>\<open>today\<close>; the model
  uses the one instant \<open>now\<close>. The search route adds \<^verbatim>\<open>&& totalRemainingDays <= 0\<close>
  for a regular member, the check-in route does not.
\<close>

definition dayPassExpired :: "int \<Rightarrow> instant \<Rightarrow> member \<Rightarrow> bool" where
  "dayPassExpired tz now member =
     (let today = setHours tz now 0 0 0 0;
          endDateOnly = setHours tz (m_endDate member) 0 0 0 0
      in endDateOnly < today)"

record memberWithStatus =
  s_status :: string
  s_daysRemaining :: int
  s_activePeriods :: nat

text \<open>One member of the result of \<^verbatim>\<open>POST /search\<close> (routes/members.js).\<close>

definition searchMember :: "int \<Rightarrow> instant \<Rightarrow> period list \<Rightarrow> member \<Rightarrow> memberWithStatus" where
  "searchMember tz now ps member =
     (let memberPeriods = activePeriods now (m_id member) ps;
          remaining = totalRemainingDays now member memberPeriods;
          isExpired =
            (if m_membershipType member = ''Day Pass'' then dayPassExpired tz now member
             else m_endDate member < now \<and> remaining \<le> 0)
      in \<lparr>s_status =
            (if isExpired then ''expired''
             else if m_endDate member \<le> now + 7 * 24 * 60 * 60 * 1000 \<and> remaining \<le> 7
             then ''expiring_soon'' else ''active''),
          s_daysRemaining = max 0 remaining,
          s_activePeriods = length memberPeriods\<rparr>)"





section \<open>Bounds of a new period (routes/members.js, routes/transactions.js)\<close>

text \<open>
  \<^verbatim>\<open>POST /members\<close>: the period of a new member runs from the given start date; a
  duration of 0 months is a Day Pass and ends with the day, any other duration is added
  to the month of the start date.
\<close>

definition createMemberDates :: "int \<Rightarrow> instant \<Rightarrow> int \<Rightarrow> instant \<times> instant" where
  "createMemberDates tz start_date duration_months =
     (let startDate = start_date;
          endDate = startDate;
          endDate = (if duration_months = 0 then setHours tz endDate 23 59 59 999
                     else setMonth tz endDate (getMonth tz endDate + duration_months))
      in (startDate, endDate))"

text \<open>\<^verbatim>\<open>POST /transactions\<close>: the period that goes with a recorded transaction.\<close>

definition transactionPeriodDates :: "int \<Rightarrow> instant \<Rightarrow> int \<Rightarrow> instant \<times> instant" where
  "transactionPeriodDates tz transactionDate durationMonths =
     (let startDate = transactionDate;
          endDate = startDate;
          endDate = setMonth tz endDate (getMonth tz endDate + durationMonths)
      in (startDate, endDate))"

text \<open>
  All periods of a member whatever their status, latest end first, and the
  \<^verbatim>\<open>reduce\<close> that finds the latest end among them. The source runs the
  \<^verbatim>\<open>reduce\<close> only on a non-empty list; \<open>None\<close> stands for the empty one.
\<close>

definition allPeriodsOf :: "nat \<Rightarrow> period list \<Rightarrow> period list" where
  "allPeriodsOf memberId ps =
     sort_key (\<lambda>p. - p_endDate p) (filter (\<lambda>p. p_memberId p = memberId) ps)"

fun latestEndDate :: "period list \<Rightarrow> instant option" where
  "latestEndDate [] = None"
| "latestEndDate (first # rest) =
     Some (fold (\<lambda>period latest. if p_endDate period > latest then p_endDate period else latest)
             (first # rest) (p_endDate first))"

text \<open>
  \<^verbatim>\<open>POST /members/:id/renew\<close>: the dates of the new period, for the member, the
  package bought and the stored periods. The Day Pass branch comes first, the branch for
  the regular packages second.
\<close>

definition renewDates ::
  "int \<Rightarrow> instant \<Rightarrow> member \<Rightarrow> membershipPackage \<Rightarrow> period list \<Rightarrow> instant \<times> instant" where
  "renewDates tz now member membershipPackage ps =
     (let currentEndDate = m_endDate member;
          allPeriods = allPeriodsOf (m_id member) ps
      in if k_durationMonths membershipPackage = 0 then
           (let newStartDate =
                  (case latestEndDate allPeriods of
                     Some latest \<Rightarrow>
                       setHours tz (setDate tz latest (getDate tz latest + 1)) 0 0 0 0
                   | None \<Rightarrow>
                       (let s = (if currentEndDate > now then currentEndDate else now);
                            s = (if s = currentEndDate \<and> currentEndDate > now
                                 then setDate tz s (getDate tz s + 1) else s)
                        in setHours tz s 0 0 0 0));
                newEndDate = setHours tz newStartDate 23 59 59 999
            in (newStartDate, newEndDate))
         else
           (let newStartDate =
                  (case latestEndDate allPeriods of
                     Some latest \<Rightarrow>
                       (let s = (if latest > now then latest else now)
                        in if latest > now
                           then setHours tz (setDate tz s (getDate tz s + 1)) 0 0 0 0
                           else s)
                   | None \<Rightarrow>
                       (let s = (if currentEndDate > now then currentEndDate else now)
                        in if s = currentEndDate \<and> currentEndDate > now
                           then setDate tz s (getDate tz s + 1) else s));
                newEndDate =
                  setMonth tz newStartDate
                    (getMonth tz newStartDate + k_durationMonths membershipPackage)
            in (newStartDate, newEndDate)))"

text \<open>
  \<^verbatim>\<open>POST /members/with-transaction\<close> with a duration of 0 months: the dates of the Day
  Pass, for the member found by phone number (if any) and the stored periods.
\<close>

definition withTransactionDayPassDates ::
  "int \<Rightarrow> instant \<Rightarrow> member option \<Rightarrow> period list \<Rightarrow> instant \<times> instant" where
  "withTransactionDayPassDates tz now existingMember ps =
     (let periodStartDate =
            (case existingMember of
               Some member \<Rightarrow>
                 (case latestEndDate (allPeriodsOf (m_id member) ps) of
                    Some latest \<Rightarrow>
                      setHours tz (setDate tz latest (getDate tz latest + 1)) 0 0 0 0
                  | None \<Rightarrow>
                      (let memberEndDate = m_endDate member in
                       if memberEndDate > now
                       then setHours tz (setDate tz memberEndDate
                                           (getDate tz memberEndDate + 1)) 0 0 0 0
                       else setHours tz now 0 0 0 0))
             | None \<Rightarrow> setHours tz now 0 0 0 0);
          periodEndDate = setHours tz periodStartDate 23 59 59 999
      in (periodStartDate, periodEndDate))"

section \<open>Deleting a member (routes/members.js)\<close>

datatype dbError = RecordNotFound

text \<open>
  \<^verbatim>\<open>DELETE /members/:id\<close>, one database transaction: the periods of the member are
  deleted, then the transactions of the member, then the member. Deleting a member that
  does not exist raises the error of the client and the transaction is rolled back; the
  caller then keeps the store it had.
\<close>

definition deleteMember :: "nat \<Rightarrow> store \<Rightarrow> dbError + store" where
  "deleteMember memberId st =
     (let st1 = st\<lparr>membershipPeriods :=
                     filter (\<lambda>p. p_memberId p \<noteq> memberId) (membershipPeriods st)\<rparr>;
          st2 = st1\<lparr>transactions :=
                      filter (\<lambda>t. t_memberId t \<noteq> memberId) (transactions st1)\<rparr>
      in if list_ex (\<lambda>m. m_id m = memberId) (members st2)
         then Inr (st2\<lparr>members := filter (\<lambda>m. m_id m \<noteq> memberId) (members st2)\<rparr>)
         else Inl RecordNotFound)"

section \<open>Check-in (routes/public.js)\<close>

datatype checkinError =
  MemberInactive | MembershipExpired | PaymentMethodRequired | DayPassPackageNotFound

record checkinResponse =
  r_status :: string
  r_daysRemaining :: int
  r_activePeriods :: nat
  r_dayPassCreated :: bool
  r_newPeriod :: "period option"

text \<open>The id the database gives to a new transaction: one more than the largest.\<close>

definition nextTransactionId :: "transaction list \<Rightarrow> nat" where
  "nextTransactionId ts = Suc (fold (\<lambda>t m. max (t_id t) m) ts 0)"

text \<open>
  \<^verbatim>\<open>POST /checkin\<close> from the point where the member has been found. \<open>createDayPass\<close>
  and \<open>paymentMethodId\<close> are the fields of the request; a missing payment method and the
  payment method 0 are both falsy. The result is an error response or the response that
  lets the member in, with the store after the request.
\<close>

definition checkin ::
  "int \<Rightarrow> instant \<Rightarrow> store \<Rightarrow> member \<Rightarrow> bool \<Rightarrow> nat option
     \<Rightarrow> checkinError + (checkinResponse \<times> store)" where
  "checkin tz now st member createDayPass paymentMethodId =
     (if \<not> m_isActive member then Inl MemberInactive
      else
        let endDate = m_endDate member;
            isExpired =
              (if m_membershipType member = ''Day Pass'' then dayPassExpired tz now member
               else endDate < now)
        in if isExpired then Inl MembershipExpired
        else
          let activeList = activePeriods now (m_id member) (membershipPeriods st);
              remaining = totalRemainingDays now member activeList;
              sevenDaysFromNow = now + 7 * 24 * 60 * 60 * 1000;
              expiringSoon = (endDate \<le> sevenDaysFromNow \<and> remaining \<le> 7)
          in if createDayPass then
               (case paymentMethodId of
                  None \<Rightarrow> Inl PaymentMethodRequired
                | Some pm \<Rightarrow>
                    if pm = 0 then Inl PaymentMethodRequired
                    else
                      (case find (\<lambda>k. k_name k = ''Day Pass'' \<and> k_durationMonths k = 0)
                              (membershipPackages st) of
                         None \<Rightarrow> Inl DayPassPackageNotFound
                       | Some dayPassPackage \<Rightarrow>
                           let allPeriods =
                                 sort_key (\<lambda>p. - p_endDate p)
                                   (filter (\<lambda>p. p_memberId p = m_id member
                                                \<and> p_status p = ''active'')
                                      (membershipPeriods st));
                               dayPassStart =
                                 (case latestEndDate allPeriods of
                                    Some latest \<Rightarrow>
                                      setDate tz latest (getDate tz latest + 1)
                                  | None \<Rightarrow>
                                      if endDate > now
                                      then setDate tz endDate (getDate tz endDate + 1)
                                      else now);
                               dayPassStart = setHours tz dayPassStart 0 0 0 0;
                               dayPassEnd = setHours tz dayPassStart 23 59 59 999;
                               newTransaction =
                                 \<lparr>t_id = nextTransactionId (transactions st),
                                  t_memberId = m_id member,
                                  t_packageId = k_id dayPassPackage,
                                  t_paymentMethodId = pm,
                                  t_amount = k_price dayPassPackage,
                                  t_packageName = k_name dayPassPackage,
                                  t_packageDuration = 0\<rparr>;
                               newPeriod =
                                 \<lparr>p_memberId = m_id member,
                                  p_startDate = dayPassStart,
                                  p_endDate = dayPassEnd,
                                  p_packageName = k_name dayPassPackage,
                                  p_duration = 0,
                                  p_status = ''active'',
                                  p_transactionId = Some (t_id newTransaction)\<rparr>;
                               updatedRemainingDays = remaining + 1
                           in Inr (\<lparr>r_status =
                                       (if expiringSoon then ''expiring_soon'' else ''active''),
                                     r_daysRemaining = max 0 updatedRemainingDays,
                                     r_activePeriods = length activeList + 1,
                                     r_dayPassCreated = True,
                                     r_newPeriod = Some newPeriod\<rparr>,
                                   st\<lparr>transactions := transactions st @ [newTransaction],
                                      membershipPeriods :=
                                        membershipPeriods st @ [newPeriod]\<rparr>)))
             else
               Inr (\<lparr>r_status = (if expiringSoon then ''expiring_soon'' else ''active''),
                     r_daysRemaining = max 0 remaining,
                     r_activePeriods = length activeList,
                     r_dayPassCreated = False,
                     r_newPeriod = None\<rparr>,
                    st))"

section \<open>Concrete histories\<close>

definition mkTransaction :: "nat \<Rightarrow> nat \<Rightarrow> int \<Rightarrow> transaction" where
  "mkTransaction i memberId amount' =
     \<lparr>t_id = i, t_memberId = memberId, t_packageId = 1, t_paymentMethodId = 1,
      t_amount = amount', t_packageName = ''Monthly'', t_packageDuration = 1\<rparr>"

definition mkPeriod :: "nat \<Rightarrow> instant \<Rightarrow> instant \<Rightarrow> nat option \<Rightarrow> period" where
  "mkPeriod memberId start' end' tid =
     \<lparr>p_memberId = memberId, p_startDate = start', p_endDate = end',
      p_packageName = ''Monthly'', p_duration = 1, p_status = ''active'',
      p_transactionId = tid\<rparr>"

definition mkHPeriod :: "instant \<Rightarrow> instant \<Rightarrow> transaction option \<Rightarrow> hperiod" where
  "mkHPeriod start' end' tr =
     \<lparr>p_memberId = 1, p_startDate = start', p_endDate = end',
      p_packageName = ''Monthly'', p_duration = 1, p_status = ''active'',
      p_transactionId = map_option t_id tr, p_transaction = tr\<rparr>"

text \<open>
  The scenario of two periods, 1 to 31 January and 5 to 28 February 2025, each paid by a
  transaction of 150000, as the history route passes them (latest start first). Each
  period runs from the first instant of its first day to the last millisecond of its
  last day.
\<close>

definition scenario_two_periods :: "hperiod list" where
  "scenario_two_periods =
     [mkHPeriod (at_utc 2025 1 5 0 0 0 0) (at_utc 2025 1 28 23 59 59 999)
        (Some (mkTransaction 2 1 150000)),
      mkHPeriod (at_utc 2025 0 1 0 0 0 0) (at_utc 2025 0 31 23 59 59 999)
        (Some (mkTransaction 1 1 150000))]"

text \<open>The same two periods with every bound at midnight.\<close>

definition scenario_two_periods_midnight :: "hperiod list" where
  "scenario_two_periods_midnight =
     [mkHPeriod (at_utc 2025 1 5 0 0 0 0) (at_utc 2025 1 28 0 0 0 0)
        (Some (mkTransaction 2 1 150000)),
      mkHPeriod (at_utc 2025 0 1 0 0 0 0) (at_utc 2025 0 31 0 0 0 0)
        (Some (mkTransaction 1 1 150000))]"

text \<open>Three one-week periods separated by two gaps of 20 days each, unpaid.\<close>

definition scenario_two_gaps :: "hperiod list" where
  "scenario_two_gaps =
     [mkHPeriod 0 (7 * msPerDay) None,
      mkHPeriod (27 * msPerDay) (34 * msPerDay) None,
      mkHPeriod (54 * msPerDay) (61 * msPerDay) None]"


definition mkMember :: "string \<Rightarrow> instant \<Rightarrow> member" where
  "mkMember type' end' =
     \<lparr>m_id = 1, m_name = ''Budi'', m_membershipType = type', m_startDate = 0,
      m_endDate = end', m_isActive = True\<rparr>"


text \<open>
  One period of member 1 from day 0 to day 10, and a member row whose \<open>endDate\<close> was
  edited to day 100 afterwards (the update route writes the member and no period).
\<close>

definition scenario_edited_end :: "period list" where
  "scenario_edited_end = [mkPeriod 1 0 (10 * msPerDay) None]"


definition dayPassPackage :: membershipPackage where
  "dayPassPackage = \<lparr>k_id = 1, k_name = ''Day Pass'', k_durationMonths = 0, k_price = 25000\<rparr>"

definition mkDayPass :: "nat \<Rightarrow> instant \<Rightarrow> instant \<Rightarrow> nat option \<Rightarrow> period" where
  "mkDayPass memberId start' end' tid =
     \<lparr>p_memberId = memberId, p_startDate = start', p_endDate = end',
      p_packageName = ''Day Pass'', p_duration = 0, p_status = ''active'',
      p_transactionId = tid\<rparr>"

text \<open>
  A member whose only period is a Day Pass of 10 January 2025, renewing with a Day Pass
  on 15 March 2025 at 10:00.
\<close>

definition scenario_old_day_pass :: "period list" where
  "scenario_old_day_pass =
     [mkDayPass 1 (at_utc 2025 0 10 0 0 0 0) (at_utc 2025 0 10 23 59 59 999) (Some 1)]"

definition scenario_old_day_pass_member :: member where
  "scenario_old_day_pass_member = mkMember ''Day Pass'' (at_utc 2025 0 10 23 59 59 999)"

text \<open>A Day Pass member whose only period is the Day Pass of 10 March 2025.\<close>

definition scenario_day_pass_today :: period where
  "scenario_day_pass_today =
     mkDayPass 1 (at_utc 2025 2 10 0 0 0 0) (at_utc 2025 2 10 23 59 59 999) (Some 1)"

definition scenario_day_pass_member :: member where
  "scenario_day_pass_member = mkMember ''Day Pass'' (at_utc 2025 2 10 23 59 59 999)"

text \<open>
  A store with two members: member 1 with one paid period, member 2 with one paid
  period.
\<close>

definition scenario_store :: store where
  "scenario_store =
     \<lparr>members = [mkMember ''Monthly'' (31 * msPerDay),
                 (mkMember ''Monthly'' (31 * msPerDay))\<lparr>m_id := 2, m_name := ''Sari''\<rparr>],
      membershipPackages = [dayPassPackage],
      transactions = [mkTransaction 1 1 150000, mkTransaction 2 2 150000],
      membershipPeriods = [mkPeriod 1 0 (31 * msPerDay) (Some 1),
                           mkPeriod 2 0 (31 * msPerDay) (Some 2)]\<rparr>"


text \<open>
  The two periods of the scenario, each stored from the midnight that opens its first day
  to the midnight that closes its last day: 1 January to 1 February, and 5 February to
  1 March 2025.
\<close>

definition scenario_two_periods_closing :: "hperiod list" where
  "scenario_two_periods_closing =
     [mkHPeriod (at_utc 2025 1 5 0 0 0 0) (at_utc 2025 2 1 0 0 0 0)
        (Some (mkTransaction 2 1 150000)),
      mkHPeriod (at_utc 2025 0 1 0 0 0 0) (at_utc 2025 1 1 0 0 0 0)
        (Some (mkTransaction 1 1 150000))]"






text \<open>
  A Day Pass member whose \<open>endDate\<close> was edited to noon of 10 March 2025, with the period
  of that day, and a member of a monthly product with the same dates.
\<close>

definition scenario_noon_member :: member where
  "scenario_noon_member = mkMember ''Day Pass'' (at_utc 2025 2 10 12 0 0 0)"

definition scenario_noon_period :: period where
  "scenario_noon_period =
     mkDayPass 1 (at_utc 2025 2 10 0 0 0 0) (at_utc 2025 2 10 12 0 0 0) (Some 1)"

definition scenario_noon_monthly :: member where
  "scenario_noon_monthly = mkMember ''Monthly'' (at_utc 2025 2 10 12 0 0 0)"


text \<open>
  What a renewal stores for a package of one month bought on 1 January 2025 at 10:00 by
  a member whose periods are over: a period from that instant to 1 February at 10:00.
\<close>

definition scenario_late_start :: hperiod where
  "scenario_late_start =
     mkHPeriod (at_utc 2025 0 1 10 0 0 0) (at_utc 2025 1 1 10 0 0 0) None"

section \<open>Calendar: years and days\<close>

lemma div_succ:
  fixes x k :: int
  assumes "0 < k"
  shows "(x + 1) div k = x div k + (if (x + 1) mod k = 0 then 1 else 0)"
proof (cases "x mod k = k - 1")
  case True
  have "x + 1 = k * (x div k) + (x mod k) + 1" by simp
  also have "\<dots> = k * (x div k + 1) + 0" unfolding True by (simp add: algebra_simps)
  finally have e: "x + 1 = k * (x div k + 1) + 0" .
  have "(x + 1) div k = x div k + 1" using int_div_pos_eq[OF e] assms by simp
  moreover have "(x + 1) mod k = 0" using int_mod_pos_eq[OF e] assms by simp
  ultimately show ?thesis by simp
next
  case False
  have r: "0 \<le> x mod k" "x mod k < k" using assms by simp_all
  have e: "x + 1 = k * (x div k) + (x mod k + 1)" by simp
  have b: "0 \<le> x mod k + 1" "x mod k + 1 < k" using r False by linarith+
  have "(x + 1) div k = x div k" using int_div_pos_eq[OF e b] .
  moreover have "(x + 1) mod k = x mod k + 1" using int_mod_pos_eq[OF e b] .
  ultimately show ?thesis using r by simp
qed

lemma mod_shift_4: "(y - 1968) mod 4 = (y::int) mod 4"
proof -
  have "y - 1968 = y + (-492) * 4" by simp
  then show ?thesis by (metis mod_mult_self1)
qed

lemma mod_shift_100: "(y - 1900) mod 100 = (y::int) mod 100"
proof -
  have "y - 1900 = y + (-19) * 100" by simp
  then show ?thesis by (metis mod_mult_self1)
qed

lemma mod_shift_400: "(y - 1600) mod 400 = (y::int) mod 400"
proof -
  have "y - 1600 = y + (-4) * 400" by simp
  then show ?thesis by (metis mod_mult_self1)
qed

lemma mod_400_100: "(y::int) mod 400 = 0 \<Longrightarrow> y mod 100 = 0"
proof -
  assume "y mod 400 = 0"
  then have "400 dvd y" by (simp add: mod_eq_0_iff_dvd)
  moreover have "(100::int) dvd 400" by simp
  ultimately have "100 dvd y" by (rule dvd_trans[rotated])
  then show ?thesis by (simp add: mod_eq_0_iff_dvd)
qed

lemma mod_100_4: "(y::int) mod 100 = 0 \<Longrightarrow> y mod 4 = 0"
proof -
  assume "y mod 100 = 0"
  then have "100 dvd y" by (simp add: mod_eq_0_iff_dvd)
  moreover have "(4::int) dvd 100" by simp
  ultimately have "4 dvd y" by (rule dvd_trans[rotated])
  then show ?thesis by (simp add: mod_eq_0_iff_dvd)
qed

lemma DayFromYear_Suc: "DayFromYear (y + 1) = DayFromYear y + DaysInYear y"
proof -
  have a: "(y + 1 - 1969) div 4 = (y - 1969) div 4 + (if y mod 4 = 0 then 1 else 0)"
    using div_succ[of 4 "y - 1969"] mod_shift_4[of y] by (simp add: algebra_simps)
  have b: "(y + 1 - 1901) div 100 = (y - 1901) div 100 + (if y mod 100 = 0 then 1 else 0)"
    using div_succ[of 100 "y - 1901"] mod_shift_100[of y] by (simp add: algebra_simps)
  have c: "(y + 1 - 1601) div 400 = (y - 1601) div 400 + (if y mod 400 = 0 then 1 else 0)"
    using div_succ[of 400 "y - 1601"] mod_shift_400[of y] by (simp add: algebra_simps)
  show ?thesis
    unfolding DayFromYear_def DaysInYear_def InLeapYear_def a b c
    using mod_400_100[of y] mod_100_4[of y] by auto
qed

lemma DaysInYear_ge: "365 \<le> DaysInYear y"
  by (simp add: DaysInYear_def)

lemma DayFromYear_mono_nat: "DayFromYear y + 365 * int k \<le> DayFromYear (y + int k)"
proof (induction k)
  case 0
  then show ?case by simp
next
  case (Suc k)
  have "DayFromYear (y + int (Suc k)) = DayFromYear (y + int k) + DaysInYear (y + int k)"
    using DayFromYear_Suc[of "y + int k"] by (simp add: algebra_simps)
  then show ?case using Suc DaysInYear_ge[of "y + int k"] by simp
qed

lemma DayFromYear_less: "y < y' \<Longrightarrow> DayFromYear y + 365 * (y' - y) \<le> DayFromYear y'"
  using DayFromYear_mono_nat[of y "nat (y' - y)"] by simp

lemma div_bounds:
  fixes x k :: int
  assumes "0 < k"
  shows "k * (x div k) \<le> x" "x < k * (x div k) + k"
proof -
  have e: "x = k * (x div k) + x mod k" by simp
  have "0 \<le> x mod k" "x mod k < k" using assms by simp_all
  then show "k * (x div k) \<le> x" "x < k * (x div k) + k" using e by linarith+
qed

lemma DayFromYear_estimate:
  "146097 * (y - 1970) - 506 \<le> 400 * DayFromYear y"
  "400 * DayFromYear y \<le> 146097 * (y - 1970) + 589"
proof -
  define a where "a = (y - 1969) div 4"
  define b where "b = (y - 1901) div 100"
  define c where "c = (y - 1601) div 400"
  have a: "4 * a \<le> y - 1969" "y - 1969 < 4 * a + 4"
    unfolding a_def using div_bounds[of 4 "y - 1969"] by simp_all
  have b: "100 * b \<le> y - 1901" "y - 1901 < 100 * b + 100"
    unfolding b_def using div_bounds[of 100 "y - 1901"] by simp_all
  have c: "400 * c \<le> y - 1601" "y - 1601 < 400 * c + 400"
    unfolding c_def using div_bounds[of 400 "y - 1601"] by simp_all
  have d: "DayFromYear y = 365 * (y - 1970) + a - b + c"
    by (simp add: DayFromYear_def a_def b_def c_def)
  have a': "100 * (y - 1972) \<le> 400 * a" "400 * a \<le> 100 * (y - 1969)"
    using a by simp_all
  have b': "4 * (y - 2000) \<le> 400 * b" "400 * b \<le> 4 * (y - 1901)"
    using b by simp_all
  have c': "y - 2000 \<le> 400 * c" "400 * c \<le> y - 1601"
    using c by simp_all
  show "146097 * (y - 1970) - 506 \<le> 400 * DayFromYear y"
    unfolding d using a'(1) b'(2) c'(1) by simp
  show "400 * DayFromYear y \<le> 146097 * (y - 1970) + 589"
    unfolding d using a'(2) b'(1) c'(2) by simp
qed

lemma YearFromDay_bounds:
  "DayFromYear (YearFromDay d) \<le> d" "d < DayFromYear (YearFromDay d + 1)"
proof -
  define y where "y = 1970 + (400 * d) div 146097"
  have q: "146097 * (y - 1970) \<le> 400 * d" "400 * d < 146097 * (y - 1970) + 146097"
    unfolding y_def using div_bounds[of 146097 "400 * d"] by simp_all
  have "400 * DayFromYear (y - 1) \<le> 400 * d"
    using DayFromYear_estimate(2)[of "y - 1"] q(1) by simp
  then have lo: "DayFromYear (y - 1) \<le> d" by simp
  have "400 * d < 400 * DayFromYear (y + 2)"
    using DayFromYear_estimate(1)[of "y + 2"] q(2) by simp
  then have hi: "d < DayFromYear (y + 2)" by simp
  have e: "YearFromDay d =
      (if DayFromYear (y + 1) \<le> d then y + 1 else if DayFromYear y \<le> d then y else y - 1)"
    by (simp add: YearFromDay_def y_def Let_def)
  show "DayFromYear (YearFromDay d) \<le> d"
    unfolding e using lo by simp
  have s: "y + 1 + 1 = y + 2" "y - 1 + 1 = y" by simp_all
  show "d < DayFromYear (YearFromDay d + 1)"
    unfolding e using hi by (simp add: s)
qed

lemma YearFromDay_unique:
  assumes "DayFromYear y \<le> d" "d < DayFromYear (y + 1)"
  shows "YearFromDay d = y"
proof (rule ccontr)
  assume n: "YearFromDay d \<noteq> y"
  let ?z = "YearFromDay d"
  show False
  proof (cases "?z < y")
    case True
    then have "DayFromYear (?z + 1) \<le> DayFromYear y"
      using DayFromYear_less[of "?z + 1" y] by (cases "?z + 1 = y") auto
    then show False using YearFromDay_bounds(2)[of d] assms(1) by linarith
  next
    case False
    then have "y < ?z" using n by simp
    then have "DayFromYear (y + 1) \<le> DayFromYear ?z"
      using DayFromYear_less[of "y + 1" ?z] by (cases "y + 1 = ?z") auto
    then show False using YearFromDay_bounds(1)[of d] assms(2) by linarith
  qed
qed

section \<open>Calendar: months and days of the month\<close>

lemma DayWithinYear_bounds:
  "0 \<le> DayWithinYear d" "DayWithinYear d < DaysInYear (YearFromDay d)"
  using YearFromDay_bounds[of d] DayFromYear_Suc[of "YearFromDay d"]
  by (simp_all add: DayWithinYear_def)

lemma MonthStart_values:
  "MonthStart l 0 = 0" "MonthStart l 1 = 31"
  "MonthStart l 2 = 59 + (if l then 1 else 0)" "MonthStart l 3 = 90 + (if l then 1 else 0)"
  "MonthStart l 4 = 120 + (if l then 1 else 0)" "MonthStart l 5 = 151 + (if l then 1 else 0)"
  "MonthStart l 6 = 181 + (if l then 1 else 0)" "MonthStart l 7 = 212 + (if l then 1 else 0)"
  "MonthStart l 8 = 243 + (if l then 1 else 0)" "MonthStart l 9 = 273 + (if l then 1 else 0)"
  "MonthStart l 10 = 304 + (if l then 1 else 0)" "MonthStart l 11 = 334 + (if l then 1 else 0)"
  by (simp_all add: MonthStart_def)

lemma month_cases:
  fixes m :: int
  assumes "0 \<le> m" "m \<le> 11"
  shows "m = 0 \<or> m = 1 \<or> m = 2 \<or> m = 3 \<or> m = 4 \<or> m = 5 \<or> m = 6 \<or> m = 7 \<or> m = 8
         \<or> m = 9 \<or> m = 10 \<or> m = 11"
  using assms by presburger

lemma MonthFromDay_range: "0 \<le> MonthFromDay d" "MonthFromDay d \<le> 11"
  by (simp_all add: MonthFromDay_def Let_def)

lemma MonthFromDay_bounds:
  "MonthStart (InLeapYear (YearFromDay d)) (MonthFromDay d) \<le> DayWithinYear d"
  "DayWithinYear d < MonthStart (InLeapYear (YearFromDay d)) (MonthFromDay d)
                     + DaysInMonth (YearFromDay d) (MonthFromDay d)"
proof -
  let ?l = "InLeapYear (YearFromDay d)"
  let ?n = "DayWithinYear d"
  have n: "0 \<le> ?n" "?n < (if ?l then 366 else 365)"
    using DayWithinYear_bounds[of d] by (simp_all add: DaysInYear_def)
  show "MonthStart ?l (MonthFromDay d) \<le> ?n"
    using n(1) by (cases ?l) (simp_all add: MonthFromDay_def Let_def MonthStart_values)
  show "?n < MonthStart ?l (MonthFromDay d) + DaysInMonth (YearFromDay d) (MonthFromDay d)"
    using n(2) by (cases ?l) (simp_all add: MonthFromDay_def Let_def MonthStart_values DaysInMonth_def)
qed

lemma DateFromDay_bounds:
  "1 \<le> DateFromDay d" "DateFromDay d \<le> DaysInMonth (YearFromDay d) (MonthFromDay d)"
  using MonthFromDay_bounds[of d] by (simp_all add: DateFromDay_def)

lemma MakeDay_fields:
  "MakeDay (YearFromDay d) (MonthFromDay d) (DateFromDay d) = d"
proof -
  have "MonthFromDay d div 12 = 0" "MonthFromDay d mod 12 = MonthFromDay d"
    using MonthFromDay_range[of d] by simp_all
  then show ?thesis
    by (simp add: MakeDay_def Let_def DateFromDay_def DayWithinYear_def)
qed

lemma MakeDay_in_month:
  assumes "0 \<le> m" "m \<le> 11"
  shows "MakeDay y m n = DayFromYear y + MonthStart (InLeapYear y) m + n - 1"
  using assms by (simp add: MakeDay_def Let_def)

section \<open>Calendar: from fields to the day and back\<close>

lemma MonthStart_le_year:
  assumes "0 \<le> m" "m \<le> 11"
  shows "0 \<le> MonthStart (InLeapYear y) m"
    and "MonthStart (InLeapYear y) m + DaysInMonth y m \<le> DaysInYear y"
  using month_cases[OF assms]
  by (elim disjE; simp add: MonthStart_values DaysInMonth_def DaysInYear_def)+

lemma month_of_offset:
  assumes "0 \<le> m" "m \<le> 11" "1 \<le> n" "n \<le> DaysInMonth y m"
    and w: "w = MonthStart (InLeapYear y) m + n - 1" and l: "l = InLeapYear y"
  shows "(if w < MonthStart l 1 then 0
      else if w < MonthStart l 2 then 1
      else if w < MonthStart l 3 then 2
      else if w < MonthStart l 4 then 3
      else if w < MonthStart l 5 then 4
      else if w < MonthStart l 6 then 5
      else if w < MonthStart l 7 then 6
      else if w < MonthStart l 8 then 7
      else if w < MonthStart l 9 then 8
      else if w < MonthStart l 10 then 9
      else if w < MonthStart l 11 then 10
      else 11) = m"
  using month_cases[OF assms(1,2)] assms(3,4)
  unfolding w l
  by (elim disjE; cases "InLeapYear y"; simp add: MonthStart_values DaysInMonth_def)

lemma fields_MakeDay:
  assumes "0 \<le> m" "m \<le> 11" "1 \<le> n" "n \<le> DaysInMonth y m"
  shows "YearFromDay (MakeDay y m n) = y"
    and "MonthFromDay (MakeDay y m n) = m"
    and "DateFromDay (MakeDay y m n) = n"
proof -
  let ?d = "MakeDay y m n"
  have d: "?d = DayFromYear y + MonthStart (InLeapYear y) m + n - 1"
    using MakeDay_in_month[OF assms(1,2)] .
  have "DayFromYear y \<le> ?d" "?d < DayFromYear (y + 1)"
    using MonthStart_le_year[OF assms(1,2), of y] assms(3,4)
    by (simp_all add: d DayFromYear_Suc)
  then show y: "YearFromDay ?d = y" by (rule YearFromDay_unique)
  have w: "DayWithinYear ?d = MonthStart (InLeapYear y) m + n - 1"
    by (simp add: DayWithinYear_def y) (simp add: d)
  show mo: "MonthFromDay ?d = m"
    unfolding MonthFromDay_def Let_def y
    by (rule month_of_offset[OF assms w refl])
  show "DateFromDay ?d = n"
    by (simp add: DateFromDay_def mo y w)
qed

section \<open>Engagement analysis: results\<close>

lemma at_utc_values:
  "at_utc 2025 0 1 0 0 0 0 = 1735689600000"
  "at_utc 2025 0 31 23 59 59 999 = 1738367999999"
  "at_utc 2025 1 5 0 0 0 0 = 1738713600000"
  "at_utc 2025 1 28 23 59 59 999 = 1740787199999"
  "at_utc 2025 0 31 0 0 0 0 = 1738281600000"
  "at_utc 2025 1 28 0 0 0 0 = 1740700800000"
  by (simp_all add: at_utc_def MakeDate_def MakeDay_def MakeTime_def DayFromYear_def
      MonthStart_def InLeapYear_def msPerDay_def)

lemma Math_round_ratio:
  assumes "0 < b"
  shows "Math_round (rat_of_int a / rat_of_int b) = (2 * a + b) div (2 * b)"
proof -
  have "rat_of_int a / rat_of_int b + 1 / 2 = rat_of_int (2 * a + b) / rat_of_int (2 * b)"
    using assms by (simp add: field_simps)
  then show ?thesis
    unfolding Math_round_def by (simp only: floor_divide_of_int_eq)
qed

lemma accumulate_sums:
  "accumulate ps (a, b) =
     (a + (\<Sum>p\<leftarrow>ps. ceilDays (p_endDate p - p_startDate p)),
      b + (\<Sum>p\<leftarrow>ps. case p_transaction p of Some tr \<Rightarrow> t_amount tr | None \<Rightarrow> 0))"
  by (induction ps arbitrary: a b) (auto simp: Let_def split: option.splits)

lemma sum_list_sort_key:
  fixes f :: "'a \<Rightarrow> int"
  shows "(\<Sum>p\<leftarrow>sort_key k ps. f p) = (\<Sum>p\<leftarrow>ps. f p)"
proof -
  have "sum_mset (image_mset f (mset (sort_key k ps))) = sum_mset (image_mset f (mset ps))"
    by simp
  then show ?thesis
    by (metis mset_map sum_mset_sum_list)
qed

lemma fold_days: "fold (\<lambda>gap sum. sum + days gap) gs a = a + sum_list (map days gs)"
  by (induction gs arbitrary: a) auto

lemma analyze_nonempty:
  assumes "periods \<noteq> []"
  shows "totalDays (analyzeMembershipPattern periods)
           = (\<Sum>p\<leftarrow>periods. ceilDays (p_endDate p - p_startDate p))"
    and "totalSpent (analyzeMembershipPattern periods)
           = (\<Sum>p\<leftarrow>periods. case p_transaction p of Some tr \<Rightarrow> t_amount tr | None \<Rightarrow> 0)"
    and "gaps (analyzeMembershipPattern periods) = gapsFrom 1 (sort_key p_startDate periods)"
    and "totalPeriods (analyzeMembershipPattern periods) = length periods"
  using assms
  by (simp_all add: analyzeMembershipPattern_def Let_def accumulate_sums sum_list_sort_key)

text \<open>
  Claim C5. On the empty list of periods \<^verbatim>\<open>analyzeMembershipPattern\<close> returns its early
  result: seven keys at their baseline values and no \<^verbatim>\<open>averageGapDays\<close> key, which the
  result for a non-empty list has.
\<close>

theorem analyzeMembershipPattern_empty:
  "analyzeMembershipPattern [] =
     \<lparr>totalPeriods = 0, totalDays = 0, totalSpent = 0, averageDuration = 0, gaps = [],
      loyaltyScore = 0, membershipType = ''new'', averageGapDays = None\<rparr>"
  by (simp add: analyzeMembershipPattern_def)

lemma average_over_30:
  assumes "0 < n"
  shows "30 < rat_of_int T / rat_of_nat n \<longleftrightarrow> 30 * int n < T"
proof -
  have "30 < rat_of_int T / rat_of_nat n \<longleftrightarrow> 30 * rat_of_nat n < rat_of_int T"
    using assms by (simp add: pos_less_divide_eq)
  also have "\<dots> \<longleftrightarrow> rat_of_int (30 * int n) < rat_of_int T" by simp
  also have "\<dots> \<longleftrightarrow> 30 * int n < T" by (simp only: of_int_less_iff)
  finally show ?thesis .
qed

text \<open>
  Claim C6, amended. For a non-empty history the loyalty score is the sum of 30 when
  there are at least three periods, 25 when the total of the gap days is under 30, 25 when
  the total of the days exceeds 30 times the number of periods (the unrounded average is
  over 30), and 20 when the total spent exceeds 1,000,000. The sum never exceeds 100.
\<close>

theorem loyaltyScore_total_gap:
  assumes "periods \<noteq> []"
  shows "loyaltyScore (analyzeMembershipPattern periods) =
           (if 3 \<le> length periods then 30 else 0)
         + (if sum_list (map days (gaps (analyzeMembershipPattern periods))) < 30 then 25 else 0)
         + (if 30 * int (length periods) < totalDays (analyzeMembershipPattern periods)
            then 25 else 0)
         + (if 1000000 < totalSpent (analyzeMembershipPattern periods) then 20 else 0)"
proof -
  have n: "0 < length periods" using assms by simp
  show ?thesis
    using assms
    by (simp add: analyzeMembershipPattern_def Let_def accumulate_sums fold_days
        average_over_30[OF n])
qed

text \<open>
  Three periods with two gaps of 20 days: only the bonus for three periods is granted.
\<close>

theorem loyaltyScore_total_gap_witness:
  "scenario_two_gaps \<noteq> []
   \<and> loyaltyScore (analyzeMembershipPattern scenario_two_gaps) = 30 + 0 + 0 + 0"
proof -
  have ne: "scenario_two_gaps \<noteq> []" by (simp add: scenario_two_gaps_def)
  have g: "map days (gaps (analyzeMembershipPattern scenario_two_gaps)) = [20, 20]"
    by (simp add: analyze_nonempty(3)[OF ne])
       (simp add: scenario_two_gaps_def mkHPeriod_def ceilDays_def msPerDay_def)
  have d: "totalDays (analyzeMembershipPattern scenario_two_gaps) = 21"
    by (simp add: analyze_nonempty(1)[OF ne])
       (simp add: scenario_two_gaps_def mkHPeriod_def ceilDays_def msPerDay_def)
  have s: "totalSpent (analyzeMembershipPattern scenario_two_gaps) = 0"
    by (simp add: analyze_nonempty(2)[OF ne])
       (simp add: scenario_two_gaps_def mkHPeriod_def)
  have l: "length scenario_two_gaps = 3" by (simp add: scenario_two_gaps_def)
  show ?thesis
    using ne loyaltyScore_total_gap[OF ne] by (simp add: g d s l)
qed

text \<open>
  Claim C6 as stated fails on that history: the mean gap is 20 days, under 30, and the
  total is 40, so the score of the code is 30 and the score of the claim is 55.
\<close>

theorem loyaltyScore_mean_gap_counterexample:
  "loyaltyScore (analyzeMembershipPattern scenario_two_gaps)
     \<noteq> spec_loyaltyScore (analyzeMembershipPattern scenario_two_gaps)"
  by (simp add: analyzeMembershipPattern_def spec_loyaltyScore_def scenario_two_gaps_def
      mkHPeriod_def ceilDays_def msPerDay_def Math_round_def Let_def floor_eq_iff)


lemma analyze_scenario_two_periods:
  "analyzeMembershipPattern scenario_two_periods =
     \<lparr>totalPeriods = 2, totalDays = 55, totalSpent = 300000, averageDuration = 28,
      gaps = [\<lparr>afterPeriod = 0, beforePeriod = 1, days = 5,
               g_startDate = at_utc 2025 0 31 23 59 59 999,
               g_endDate = at_utc 2025 1 5 0 0 0 0\<rparr>],
      loyaltyScore = 25, membershipType = ''second_time'', averageGapDays = Some 5\<rparr>"
  by (simp add: analyzeMembershipPattern_def scenario_two_periods_def mkHPeriod_def
      mkTransaction_def at_utc_values ceilDays_def msPerDay_def Math_round_def Let_def
      floor_eq_iff)

lemma analyze_scenario_two_periods_midnight:
  "analyzeMembershipPattern scenario_two_periods_midnight =
     \<lparr>totalPeriods = 2, totalDays = 53, totalSpent = 300000, averageDuration = 27,
      gaps = [\<lparr>afterPeriod = 0, beforePeriod = 1, days = 5,
               g_startDate = at_utc 2025 0 31 0 0 0 0,
               g_endDate = at_utc 2025 1 5 0 0 0 0\<rparr>],
      loyaltyScore = 25, membershipType = ''second_time'', averageGapDays = Some 5\<rparr>"
  by (simp add: analyzeMembershipPattern_def scenario_two_periods_midnight_def mkHPeriod_def
      mkTransaction_def at_utc_values ceilDays_def msPerDay_def Math_round_def Let_def
      floor_eq_iff)

lemma totalDays_sum:
  "totalDays (analyzeMembershipPattern periods)
     = (\<Sum>p\<leftarrow>periods. ceilDays (p_endDate p - p_startDate p))"
proof (cases "periods = []")
  case True
  then show ?thesis by (simp add: analyzeMembershipPattern_def)
next
  case False
  then show ?thesis by (rule analyze_nonempty(1))
qed

lemma at_utc_values_closing:
  "at_utc 2025 1 1 0 0 0 0 = 1738368000000"
  "at_utc 2025 2 1 0 0 0 0 = 1740787200000"
  "at_utc 2025 0 1 10 0 0 0 = 1735725600000"
  "at_utc 2025 1 1 10 0 0 0 = 1738404000000"
  by (simp_all add: at_utc_def MakeDate_def MakeDay_def MakeTime_def DayFromYear_def
      MonthStart_def InLeapYear_def msPerDay_def)

lemma analyze_scenario_two_periods_closing:
  "analyzeMembershipPattern scenario_two_periods_closing =
     \<lparr>totalPeriods = 2, totalDays = 55, totalSpent = 300000, averageDuration = 28,
      gaps = [\<lparr>afterPeriod = 0, beforePeriod = 1, days = 4,
               g_startDate = at_utc 2025 1 1 0 0 0 0,
               g_endDate = at_utc 2025 1 5 0 0 0 0\<rparr>],
      loyaltyScore = 25, membershipType = ''second_time'', averageGapDays = Some 4\<rparr>"
  by (simp add: analyzeMembershipPattern_def scenario_two_periods_closing_def mkHPeriod_def
      mkTransaction_def at_utc_values at_utc_values_closing ceilDays_def msPerDay_def
      Math_round_def Let_def floor_eq_iff)

text \<open>
  For a period that starts at a midnight, the days from start to end rounded up are the
  calendar days from its first day to the day of its last millisecond.
\<close>

lemma ceilDays_from_midnight:
  assumes m: "TimeWithinDay (LocalTime tz s) = 0" and l: "s < e"
  shows "ceilDays (e - s) = Day (LocalTime tz (e - 1)) - Day (LocalTime tz s) + 1"
proof -
  have D: "0 < msPerDay" by (simp add: msPerDay_def)
  define k where "k = Day (LocalTime tz s)"
  define q where "q = (e - s - 1) div msPerDay"
  define r where "r = (e - s - 1) mod msPerDay"
  have s: "LocalTime tz s = msPerDay * k"
    using m by (simp add: k_def Day_def TimeWithinDay_def) (metis mult_div_mod_eq add.right_neutral)
  have x: "e - s - 1 = msPerDay * q + r" by (simp add: q_def r_def)
  have r: "0 \<le> r" "r < msPerDay" using D by (simp_all add: r_def)
  have "LocalTime tz (e - 1) = msPerDay * (k + q) + r"
    using s x by (simp add: LocalTime_def algebra_simps)
  then have a: "Day (LocalTime tz (e - 1)) = k + q"
    unfolding Day_def using int_div_pos_eq[OF _ r] by simp
  have "- (e - s) = msPerDay * (- (q + 1)) + (msPerDay - 1 - r)"
    using x by (simp add: algebra_simps)
  then have "(- (e - s)) div msPerDay = - (q + 1)"
    using int_div_pos_eq[of "- (e - s)" msPerDay "- (q + 1)" "msPerDay - 1 - r"] r by simp
  then have "ceilDays (e - s) = q + 1" by (simp add: ceilDays_def)
  then show ?thesis using a by (simp add: k_def)
qed

lemma totalDays_inclusive:
  assumes "\<forall>p\<in>set periods. TimeWithinDay (LocalTime tz (p_startDate p)) = 0
                            \<and> p_startDate p < p_endDate p"
  shows "totalDays (analyzeMembershipPattern periods)
           = (\<Sum>p\<leftarrow>periods. spec_inclusiveDaySpan tz p)"
proof -
  have "map (\<lambda>p. ceilDays (p_endDate p - p_startDate p)) periods
        = map (spec_inclusiveDaySpan tz) periods"
    using assms by (intro map_cong) (simp_all add: ceilDays_from_midnight spec_inclusiveDaySpan_def)
  then have "(\<Sum>p\<leftarrow>periods. ceilDays (p_endDate p - p_startDate p))
             = (\<Sum>p\<leftarrow>periods. spec_inclusiveDaySpan tz p)"
    by (rule arg_cong)
  then show ?thesis by (simp only: totalDays_sum)
qed

lemma late_start_values:
  "totalDays (analyzeMembershipPattern [scenario_late_start]) = 31"
  "spec_inclusiveDaySpan 0 scenario_late_start = 32"
  by (simp_all add: totalDays_sum scenario_late_start_def mkHPeriod_def at_utc_values_closing
      ceilDays_def spec_inclusiveDaySpan_def Day_def LocalTime_def msPerDay_def)

text \<open>
  Claim C7 as stated fails when a date stands for an instant of that date. With each
  period ending on the last millisecond of its last day the gap between 31 January and
  5 February is counted as 5 days, not 4; with each bound at the midnight that opens its
  day the total is 53 days and the gap 5 days. And a period that starts at 10:00 and ends
  a month later at 10:00 counts for 31 days while it runs over 32 calendar days.
\<close>

theorem scenario_gap_counterexample:
  "\<not> (totalDays (analyzeMembershipPattern scenario_two_periods) = 55
      \<and> totalSpent (analyzeMembershipPattern scenario_two_periods) = 300000
      \<and> map days (gaps (analyzeMembershipPattern scenario_two_periods)) = [4]
      \<and> averageGapDays (analyzeMembershipPattern scenario_two_periods) = Some 4
      \<and> membershipType (analyzeMembershipPattern scenario_two_periods) = ''second_time''
      \<and> loyaltyScore (analyzeMembershipPattern scenario_two_periods) = 25)
   \<and> totalDays (analyzeMembershipPattern scenario_two_periods_midnight) \<noteq> 55
   \<and> map days (gaps (analyzeMembershipPattern scenario_two_periods_midnight)) \<noteq> [4]
   \<and> totalDays (analyzeMembershipPattern [scenario_late_start])
       \<noteq> (\<Sum>p\<leftarrow>[scenario_late_start]. spec_inclusiveDaySpan 0 p)"
  by (simp add: analyze_scenario_two_periods analyze_scenario_two_periods_midnight
      late_start_values)

text \<open>
  Claim C7, amended. \<open>totalDays\<close> is the sum over the periods of the days from start to
  end rounded up; when every period starts at a midnight and ends after it starts, that
  is the sum of the inclusive day-spans of the periods. For the scenario with each period
  stored from the midnight that opens its first day to the midnight that closes its last
  day, the result has 55 days, 300000 spent, one gap of 4 days, an average gap of 4, the
  type \<^verbatim>\<open>second_time\<close> and the score 25.
\<close>

theorem totalDays_inclusive_and_scenario:
  "totalDays (analyzeMembershipPattern periods)
     = (\<Sum>p\<leftarrow>periods. ceilDays (p_endDate p - p_startDate p))
   \<and> ((\<forall>p\<in>set periods. TimeWithinDay (LocalTime tz (p_startDate p)) = 0
                          \<and> p_startDate p < p_endDate p)
        \<longrightarrow> totalDays (analyzeMembershipPattern periods)
              = (\<Sum>p\<leftarrow>periods. spec_inclusiveDaySpan tz p))
   \<and> totalDays (analyzeMembershipPattern scenario_two_periods_closing) = 55
   \<and> totalSpent (analyzeMembershipPattern scenario_two_periods_closing) = 300000
   \<and> map days (gaps (analyzeMembershipPattern scenario_two_periods_closing)) = [4]
   \<and> averageGapDays (analyzeMembershipPattern scenario_two_periods_closing) = Some 4
   \<and> membershipType (analyzeMembershipPattern scenario_two_periods_closing) = ''second_time''
   \<and> loyaltyScore (analyzeMembershipPattern scenario_two_periods_closing) = 25"
  using totalDays_inclusive[of periods tz]
  by (simp add: totalDays_sum analyze_scenario_two_periods_closing)

lemma closing_starts_at_midnight:
  "\<forall>p\<in>set scenario_two_periods_closing.
     TimeWithinDay (LocalTime 0 (p_startDate p)) = 0 \<and> p_startDate p < p_endDate p"
  by (simp add: scenario_two_periods_closing_def mkHPeriod_def at_utc_values
      at_utc_values_closing TimeWithinDay_def LocalTime_def msPerDay_def)

lemma closing_spans:
  "map (spec_inclusiveDaySpan 0) scenario_two_periods_closing = [24, 31]"
  by (simp add: scenario_two_periods_closing_def mkHPeriod_def at_utc_values
      at_utc_values_closing spec_inclusiveDaySpan_def Day_def LocalTime_def msPerDay_def)

text \<open>
  The two periods of the scenario start at midnight; their inclusive day-spans are 31 and
  24 days, 55 together.
\<close>

theorem totalDays_inclusive_and_scenario_witness:
  "list_all (\<lambda>p. TimeWithinDay (LocalTime 0 (p_startDate p)) = 0 \<and> p_startDate p < p_endDate p)
     scenario_two_periods_closing
   \<and> map (spec_inclusiveDaySpan 0) scenario_two_periods_closing = [24, 31]
   \<and> totalDays (analyzeMembershipPattern scenario_two_periods_closing)
       = (\<Sum>p\<leftarrow>scenario_two_periods_closing. spec_inclusiveDaySpan 0 p)"
  using totalDays_inclusive_and_scenario[of scenario_two_periods_closing 0]
    closing_starts_at_midnight closing_spans
  by (simp add: list_all_iff)

section \<open>Days remaining: results\<close>

lemma ceilDays_mono: "a \<le> b \<Longrightarrow> ceilDays a \<le> ceilDays b"
  by (simp add: ceilDays_def msPerDay_def zdiv_mono1)

lemma ceilDays_nonneg: "0 \<le> a \<Longrightarrow> 0 \<le> ceilDays a"
  using ceilDays_mono[of 0 a] by (simp add: ceilDays_def)

lemma ceilDays_nonpos: "a \<le> 0 \<Longrightarrow> ceilDays a \<le> 0"
  using ceilDays_mono[of a 0] by (simp add: ceilDays_def)

lemma ceilDays_pos: "0 < a \<Longrightarrow> 1 \<le> ceilDays a"
  using ceilDays_mono[of 1 a] by (simp add: ceilDays_def msPerDay_def)


lemma ceilDays_le_day: "a \<le> msPerDay \<Longrightarrow> ceilDays a \<le> 1"
  using ceilDays_mono[of a msPerDay] by (simp add: ceilDays_def msPerDay_def)

text \<open>What one period adds to the total, with the cursor at \<open>now\<close>.\<close>

lemma remainingLoop_sum:
  "remainingLoop now ps acc =
     acc + (\<Sum>p\<leftarrow>ps. if p_startDate p > now then ceilDays (p_endDate p - p_startDate p) + 1
                     else if p_endDate p > now then ceilDays (p_endDate p - now) else 0)"
  by (induction ps arbitrary: acc) (simp_all add: Let_def)

lemma sum_list_filter_if:
  fixes f :: "'a \<Rightarrow> int"
  shows "(\<Sum>p\<leftarrow>filter P ps. f p) = (\<Sum>p\<leftarrow>ps. if P p then f p else 0)"
  by (induction ps) simp_all

lemma activePeriods_set:
  "set (activePeriods now i ps) =
     {p \<in> set ps. p_memberId p = i \<and> p_status p = ''active'' \<and> p_endDate p > now}"
  by (auto simp: activePeriods_def)

lemma activePeriods_empty:
  "activePeriods now i ps = [] \<longleftrightarrow>
     (\<forall>p\<in>set ps. \<not> (p_memberId p = i \<and> p_status p = ''active'' \<and> p_endDate p > now))"
proof -
  have "activePeriods now i ps = [] \<longleftrightarrow> set (activePeriods now i ps) = {}"
    by simp
  then show ?thesis unfolding activePeriods_set by blast
qed

lemma activePeriods_sum:
  fixes f :: "period \<Rightarrow> int"
  shows "(\<Sum>p\<leftarrow>activePeriods now i ps. f p) =
         (\<Sum>p\<leftarrow>filter (\<lambda>p. p_memberId p = i \<and> p_status p = ''active'' \<and> p_endDate p > now) ps. f p)"
  unfolding activePeriods_def by (rule sum_list_sort_key)

lemma totalRemainingDays_active:
  assumes "activePeriods now i ps \<noteq> []"
  shows "totalRemainingDays now member (activePeriods now i ps) = (\<Sum>p\<leftarrow>ps. periodDays now i p)"
proof -
  let ?P = "\<lambda>p. p_memberId p = i \<and> p_status p = ''active'' \<and> p_endDate p > now"
  let ?f = "\<lambda>p. if p_startDate p > now then ceilDays (p_endDate p - p_startDate p) + 1
                 else if p_endDate p > now then ceilDays (p_endDate p - now) else 0"
  have "totalRemainingDays now member (activePeriods now i ps) = (\<Sum>p\<leftarrow>activePeriods now i ps. ?f p)"
    using assms by (simp add: totalRemainingDays_def remainingLoop_sum sum_list_sort_key)
  also have "\<dots> = (\<Sum>p\<leftarrow>filter ?P ps. ?f p)"
    by (rule activePeriods_sum)
  also have "\<dots> = (\<Sum>p\<leftarrow>ps. if ?P p then ?f p else 0)"
    by (rule sum_list_filter_if)
  also have "\<dots> = (\<Sum>p\<leftarrow>ps. periodDays now i p)"
    by (rule arg_cong[where f = sum_list]) (rule map_cong, simp_all add: periodDays_def)
  finally show ?thesis .
qed

lemma totalRemainingDays_fallback:
  assumes "activePeriods now i ps = []"
  shows "totalRemainingDays now member (activePeriods now i ps) = ceilDays (m_endDate member - now)"
  using assms by (simp add: totalRemainingDays_def)

text \<open>
  The total of the loop in closed form: every period that counts is measured from
  \<open>now\<close>, whatever the periods before it.
\<close>

lemma totalRemainingDays_fixed_cursor:
  "totalRemainingDays now member (activePeriods now (m_id member) ps) =
     (if activePeriods now (m_id member) ps = [] then ceilDays (m_endDate member - now)
      else (\<Sum>p\<leftarrow>filter (\<lambda>p. p_memberId p = m_id member \<and> p_status p = ''active''
                               \<and> p_endDate p > now) ps.
              if p_startDate p > now then ceilDays (p_endDate p - p_startDate p) + 1
              else ceilDays (p_endDate p - now)))"
proof (cases "activePeriods now (m_id member) ps = []")
  case True
  then show ?thesis by (simp add: totalRemainingDays_def)
next
  case False
  let ?P = "\<lambda>p. p_memberId p = m_id member \<and> p_status p = ''active'' \<and> p_endDate p > now"
  have "(\<Sum>p\<leftarrow>ps. periodDays now (m_id member) p) =
        (\<Sum>p\<leftarrow>ps. if ?P p then (if p_startDate p > now
                                  then ceilDays (p_endDate p - p_startDate p) + 1
                                  else ceilDays (p_endDate p - now)) else 0)"
    by (rule arg_cong[where f = sum_list]) (rule map_cong, simp_all add: periodDays_def)
  also have "\<dots> = (\<Sum>p\<leftarrow>filter ?P ps. if p_startDate p > now
                                  then ceilDays (p_endDate p - p_startDate p) + 1
                                  else ceilDays (p_endDate p - now))"
    by (rule sum_list_filter_if[symmetric])
  finally show ?thesis
    using False totalRemainingDays_active[OF False, of member] by simp
qed




lemma periodDays_nonneg:
  assumes "p_startDate p \<le> p_endDate p"
  shows "0 \<le> periodDays now i p"
  using assms ceilDays_nonneg[of "p_endDate p - p_startDate p"]
    ceilDays_nonneg[of "p_endDate p - now"]
  by (simp add: periodDays_def)

lemma periodDays_antitone:
  assumes wf: "p_startDate p \<le> p_endDate p" and t: "t1 \<le> t2"
  shows "periodDays t2 i p \<le> periodDays t1 i p"
proof (cases "p_memberId p = i \<and> p_status p = ''active'' \<and> p_endDate p > t2")
  case False
  then have "periodDays t2 i p = 0" by (auto simp: periodDays_def)
  then show ?thesis using periodDays_nonneg[OF wf, of t1 i] by simp
next
  case True
  then have a1: "p_memberId p = i \<and> p_status p = ''active'' \<and> p_endDate p > t1"
    using t by simp
  show ?thesis
  proof (cases "p_startDate p > t2")
    case True
    then show ?thesis using \<open>p_memberId p = i \<and> p_status p = ''active'' \<and> p_endDate p > t2\<close> a1 t
      by (simp add: periodDays_def)
  next
    case False
    have m1: "ceilDays (p_endDate p - t2) \<le> ceilDays (p_endDate p - t1)"
      using t by (intro ceilDays_mono) simp
    have m2: "ceilDays (p_endDate p - t2) \<le> ceilDays (p_endDate p - p_startDate p)"
      using False by (intro ceilDays_mono) simp
    show ?thesis
      using True a1 False m1 m2 by (simp add: periodDays_def)
  qed
qed

lemma sum_periodDays_antitone:
  assumes "\<forall>p\<in>set ps. p_startDate p \<le> p_endDate p" "t1 \<le> t2"
  shows "(\<Sum>p\<leftarrow>ps. periodDays t2 i p) \<le> (\<Sum>p\<leftarrow>ps. periodDays t1 i p)"
  using assms by (intro sum_list_mono) (simp add: periodDays_antitone)


lemma s_daysRemaining_eq:
  "s_daysRemaining (searchMember tz now ps member)
     = max 0 (totalRemainingDays now member (activePeriods now (m_id member) ps))"
  by (simp add: searchMember_def Let_def)

lemma edited_end_values:
  "s_daysRemaining (searchMember 0 (5 * msPerDay) scenario_edited_end
      (mkMember ''Monthly'' (100 * msPerDay))) = 5"
  "s_daysRemaining (searchMember 0 (20 * msPerDay) scenario_edited_end
      (mkMember ''Monthly'' (100 * msPerDay))) = 80"
  "s_daysRemaining (searchMember 0 (5 * msPerDay) scenario_edited_end
      (mkMember ''Monthly'' (10 * msPerDay))) = 5"
  "s_daysRemaining (searchMember 0 (20 * msPerDay) scenario_edited_end
      (mkMember ''Monthly'' (10 * msPerDay))) = 0"
  by (simp_all add: s_daysRemaining_eq totalRemainingDays_def activePeriods_def
      scenario_edited_end_def mkPeriod_def mkMember_def msPerDay_def ceilDays_def)






lemma at_utc_values_march:
  "at_utc 2025 2 1 0 0 0 0 = 1740787200000"
  "at_utc 2025 2 10 0 0 0 0 = 1741564800000"
  "at_utc 2025 3 10 0 0 0 0 = 1744243200000"
  "at_utc 2025 2 10 12 0 0 0 = 1741608000000"
  "at_utc 2025 2 10 22 0 0 0 = 1741644000000"
  "at_utc 2025 2 10 23 59 59 999 = 1741651199999"
  by (simp_all add: at_utc_def MakeDate_def MakeDay_def MakeTime_def DayFromYear_def
      MonthStart_def InLeapYear_def msPerDay_def)





section \<open>Operations on dates\<close>

lemma msPerDay_pos: "0 < msPerDay"
  by (simp add: msPerDay_def)

lemma Day_MakeDate:
  assumes "0 \<le> t" "t < msPerDay"
  shows "Day (MakeDate d t) = d" and "TimeWithinDay (MakeDate d t) = t"
proof -
  have e: "MakeDate d t = msPerDay * d + t" by (simp add: MakeDate_def)
  show "Day (MakeDate d t) = d"
    unfolding Day_def using int_div_pos_eq[OF e assms] .
  show "TimeWithinDay (MakeDate d t) = t"
    unfolding TimeWithinDay_def using int_mod_pos_eq[OF e assms] .
qed

lemma TimeWithinDay_bounds: "0 \<le> TimeWithinDay t" "TimeWithinDay t < msPerDay"
  using msPerDay_pos by (simp_all add: TimeWithinDay_def)

lemma MakeDate_Day: "MakeDate (Day t) (TimeWithinDay t) = t"
  by (simp add: MakeDate_def Day_def TimeWithinDay_def)

lemma Local_UTC: "LocalTime tz (UTC tz t) = t" "UTC tz (LocalTime tz t) = t"
  by (simp_all add: LocalTime_def UTC_def)

lemma MakeTime_midnight: "MakeTime 0 0 0 0 = 0"
  by (simp add: MakeTime_def)

lemma MakeTime_end_of_day: "MakeTime 23 59 59 999 = msPerDay - 1"
  by (simp add: MakeTime_def msPerDay_def)

lemma Day_setHours_midnight: "Day (LocalTime tz (setHours tz t 0 0 0 0)) = Day (LocalTime tz t)"
  using Day_MakeDate(1)[of 0 "Day (LocalTime tz t)"] msPerDay_pos
  by (simp add: setHours_def Local_UTC MakeTime_midnight)

lemma Day_setHours_end_of_day:
  "Day (LocalTime tz (setHours tz t 23 59 59 999)) = Day (LocalTime tz t)"
  using Day_MakeDate(1)[of "msPerDay - 1" "Day (LocalTime tz t)"] msPerDay_pos
  by (simp add: setHours_def Local_UTC MakeTime_end_of_day msPerDay_def)

lemma setHours_same_day:
  assumes "Day (LocalTime tz a) = Day (LocalTime tz b)"
  shows "setHours tz a h m s ms = setHours tz b h m s ms"
  using assms by (simp add: setHours_def)

lemma setHours_midnight_le: "setHours tz t 0 0 0 0 \<le> t"
proof -
  have "MakeDate (Day (LocalTime tz t)) 0 \<le> LocalTime tz t"
    using MakeDate_Day[of "LocalTime tz t"] TimeWithinDay_bounds(1)[of "LocalTime tz t"]
    by (simp add: MakeDate_def)
  then show ?thesis by (simp add: setHours_def MakeTime_midnight UTC_def LocalTime_def)
qed

lemma setHours_end_of_day_eq:
  "setHours tz t 23 59 59 999 = setHours tz t 0 0 0 0 + (msPerDay - 1)"
  by (simp add: setHours_def MakeTime_midnight MakeTime_end_of_day MakeDate_def UTC_def)

lemma setHours_end_of_day_ge: "t \<le> setHours tz t 23 59 59 999"
proof -
  have "LocalTime tz t \<le> MakeDate (Day (LocalTime tz t)) (msPerDay - 1)"
    using MakeDate_Day[of "LocalTime tz t"] TimeWithinDay_bounds(2)[of "LocalTime tz t"]
    by (simp add: MakeDate_def)
  then show ?thesis by (simp add: setHours_def MakeTime_end_of_day UTC_def LocalTime_def)
qed

lemma setHours_midnight_less_iff:
  "setHours tz a 0 0 0 0 < setHours tz b 0 0 0 0 \<longleftrightarrow> Day (LocalTime tz a) < Day (LocalTime tz b)"
  using msPerDay_pos by (simp add: setHours_def MakeDate_def MakeTime_midnight UTC_def)

lemma MakeDay_Suc: "MakeDay y m (n + 1) = MakeDay y m n + 1"
  by (simp add: MakeDay_def Let_def)

lemma setDate_next_day: "setDate tz t (getDate tz t + 1) = t + msPerDay"
proof -
  let ?l = "LocalTime tz t"
  have "MakeDay (getFullYear tz t) (getMonth tz t) (getDate tz t + 1) = Day ?l + 1"
    unfolding getFullYear_def getMonth_def getDate_def MakeDay_Suc MakeDay_fields ..
  then have "setDate tz t (getDate tz t + 1) = UTC tz (MakeDate (Day ?l + 1) (TimeWithinDay ?l))"
    by (simp add: setDate_def)
  also have "\<dots> = UTC tz (MakeDate (Day ?l) (TimeWithinDay ?l) + msPerDay)"
    by (simp add: MakeDate_def algebra_simps)
  also have "\<dots> = t + msPerDay"
    by (simp add: MakeDate_Day UTC_def LocalTime_def)
  finally show ?thesis .
qed

text \<open>The calendar fields of the result of \<^verbatim>\<open>setMonth\<close>.\<close>

lemma Day_setMonth:
  "Day (LocalTime tz (setMonth tz t n)) = MakeDay (getFullYear tz t) n (getDate tz t)"
  and TimeWithinDay_setMonth:
  "TimeWithinDay (LocalTime tz (setMonth tz t n)) = TimeWithinDay (LocalTime tz t)"
  by (simp_all add: setMonth_def Local_UTC Day_MakeDate[OF TimeWithinDay_bounds])

lemma MakeDay_normalise:
  "MakeDay y m n = MakeDay (y + m div 12) (m mod 12) n"
proof -
  have "m mod 12 div 12 = 0" "m mod 12 mod 12 = m mod 12" by simp_all
  then show ?thesis by (simp add: MakeDay_def Let_def)
qed

lemma DaysInMonth_bounds: "28 \<le> DaysInMonth y m" "DaysInMonth y m \<le> 31"
  by (simp_all add: DaysInMonth_def)

lemma MakeDay_overflow:
  assumes m: "0 \<le> m" "m \<le> 11" and n: "DaysInMonth y m < n" "n \<le> 31"
  shows "m \<le> 10" and "MakeDay y m n = MakeDay y (m + 1) (n - DaysInMonth y m)"
    and "n - DaysInMonth y m \<le> DaysInMonth y (m + 1)"
proof -
  have c: "m = 1 \<or> m = 3 \<or> m = 5 \<or> m = 8 \<or> m = 10"
    using month_cases[OF m] n by (elim disjE; simp add: DaysInMonth_def)
  then show "m \<le> 10" by auto
  then have m': "0 \<le> m + 1" "m + 1 \<le> 11" using m by simp_all
  show "MakeDay y m n = MakeDay y (m + 1) (n - DaysInMonth y m)"
    unfolding MakeDay_in_month[OF m] MakeDay_in_month[OF m']
    using c by (elim disjE; simp add: MonthStart_values DaysInMonth_def)
  show "n - DaysInMonth y m \<le> DaysInMonth y (m + 1)"
    using c n by (elim disjE; simp add: DaysInMonth_def)
qed

lemma setMonth_fields:
  fixes tz t n
  defines "y \<equiv> getFullYear tz t + n div 12" and "m \<equiv> n mod 12" and "d \<equiv> getDate tz t"
  defines "e \<equiv> setMonth tz t n"
  shows "d \<le> DaysInMonth y m \<Longrightarrow>
           getFullYear tz e = y \<and> getMonth tz e = m \<and> getDate tz e = d"
    and "DaysInMonth y m < d \<Longrightarrow>
           getFullYear tz e = y \<and> getMonth tz e = m + 1 \<and> getDate tz e = d - DaysInMonth y m"
proof -
  have m: "0 \<le> m" "m \<le> 11" by (simp_all add: m_def)
  have d: "1 \<le> d" "d \<le> 31"
    using DateFromDay_bounds[of "Day (LocalTime tz t)"]
      DaysInMonth_bounds(2)[of "YearFromDay (Day (LocalTime tz t))" "MonthFromDay (Day (LocalTime tz t))"]
    by (simp_all add: d_def getDate_def)
  have day: "Day (LocalTime tz e) = MakeDay y m d"
    unfolding e_def Day_setMonth y_def m_def d_def by (rule MakeDay_normalise)
  {
    assume le: "d \<le> DaysInMonth y m"
    show "getFullYear tz e = y \<and> getMonth tz e = m \<and> getDate tz e = d"
      unfolding getFullYear_def getMonth_def getDate_def day
      using fields_MakeDay[OF m d(1) le] by simp
  }
  {
    assume gt: "DaysInMonth y m < d"
    note o = MakeDay_overflow[OF m gt d(2)]
    have m': "0 \<le> m + 1" "m + 1 \<le> 11" using m o(1) by simp_all
    have d': "1 \<le> d - DaysInMonth y m" using gt by simp
    show "getFullYear tz e = y \<and> getMonth tz e = m + 1 \<and> getDate tz e = d - DaysInMonth y m"
      unfolding getFullYear_def getMonth_def getDate_def day o(2)
      using fields_MakeDay[OF m' d' o(3)] by simp
  }
qed

section \<open>End of a regular period\<close>

lemma at_utc_fields:
  assumes "0 \<le> m" "m \<le> 11" "1 \<le> d" "d \<le> DaysInMonth y m"
    and "0 \<le> MakeTime h mi s ms" "MakeTime h mi s ms < msPerDay"
  shows "Day (LocalTime 0 (at_utc y m d h mi s ms)) = MakeDay y m d"
    and "getFullYear 0 (at_utc y m d h mi s ms) = y"
    and "getMonth 0 (at_utc y m d h mi s ms) = m"
    and "getDate 0 (at_utc y m d h mi s ms) = d"
    and "TimeWithinDay (LocalTime 0 (at_utc y m d h mi s ms)) = MakeTime h mi s ms"
proof -
  show day: "Day (LocalTime 0 (at_utc y m d h mi s ms)) = MakeDay y m d"
    using Day_MakeDate(1)[OF assms(5,6)] by (simp add: at_utc_def LocalTime_def)
  show "getFullYear 0 (at_utc y m d h mi s ms) = y"
    unfolding getFullYear_def day by (rule fields_MakeDay(1)[OF assms(1-4)])
  show "getMonth 0 (at_utc y m d h mi s ms) = m"
    unfolding getMonth_def day by (rule fields_MakeDay(2)[OF assms(1-4)])
  show "getDate 0 (at_utc y m d h mi s ms) = d"
    unfolding getDate_def day by (rule fields_MakeDay(3)[OF assms(1-4)])
  show "TimeWithinDay (LocalTime 0 (at_utc y m d h mi s ms)) = MakeTime h mi s ms"
    using Day_MakeDate(2)[OF assms(5,6)] by (simp add: at_utc_def LocalTime_def)
qed

lemma jan31_fields:
  "getFullYear 0 (at_utc 2025 0 31 0 0 0 0) = 2025"
  "getMonth 0 (at_utc 2025 0 31 0 0 0 0) = 0"
  "getDate 0 (at_utc 2025 0 31 0 0 0 0) = 31"
  by (rule at_utc_fields; simp add: DaysInMonth_def MakeTime_def msPerDay_def)+

lemma createMemberDates_end:
  "n \<noteq> 0 \<Longrightarrow> snd (createMemberDates tz s n) = setMonth tz s (getMonth tz s + n)"
  by (simp add: createMemberDates_def Let_def)

lemma transactionPeriodDates_end:
  "snd (transactionPeriodDates tz s n) = setMonth tz s (getMonth tz s + n)"
  by (simp add: transactionPeriodDates_def Let_def)

text \<open>
  Claim C2, amended. For a regular product the end is the start with the duration added
  to its month, as \<^verbatim>\<open>setMonth\<close> does it: the time of day is kept, and the day of the
  month is kept when the month reached has that day; when it has not, the days in excess
  are counted on into the month after it. The period of a recorded transaction gets the
  same end.
\<close>

theorem regular_end_month_overflow:
  assumes "0 < n"
  shows "let e = snd (createMemberDates tz s n);
             y = getFullYear tz s + (getMonth tz s + n) div 12;
             m = (getMonth tz s + n) mod 12;
             d = getDate tz s
         in TimeWithinDay (LocalTime tz e) = TimeWithinDay (LocalTime tz s)
            \<and> snd (transactionPeriodDates tz s n) = e
            \<and> (if d \<le> DaysInMonth y m
                then getFullYear tz e = y \<and> getMonth tz e = m \<and> getDate tz e = d
                else getFullYear tz e = y \<and> getMonth tz e = m + 1
                     \<and> getDate tz e = d - DaysInMonth y m)"
proof -
  have e: "snd (createMemberDates tz s n) = setMonth tz s (getMonth tz s + n)"
    using assms by (simp add: createMemberDates_end)
  show ?thesis
    unfolding Let_def e transactionPeriodDates_end
    using setMonth_fields[of tz s "getMonth tz s + n"]
    by (simp add: TimeWithinDay_setMonth)
qed

text \<open>
  One month from 31 January 2025 is 3 March 2025: February 2025 has 28 days, and the 3
  days in excess run on into March.
\<close>

theorem regular_end_month_overflow_witness:
  "(0::int) < 1
   \<and> getFullYear 0 (snd (createMemberDates 0 (at_utc 2025 0 31 0 0 0 0) 1)) = 2025
   \<and> getMonth 0 (snd (createMemberDates 0 (at_utc 2025 0 31 0 0 0 0) 1)) = 2
   \<and> getDate 0 (snd (createMemberDates 0 (at_utc 2025 0 31 0 0 0 0) 1)) = 3"
proof -
  have p: "(0::int) < 1" by simp
  show ?thesis
    using regular_end_month_overflow[OF p, of 0 "at_utc 2025 0 31 0 0 0 0"]
    by (simp add: Let_def jan31_fields DaysInMonth_def InLeapYear_def)
qed

text \<open>
  Claim C2 as stated fails: the end of a one-month period that starts on 31 January 2025
  is in March (month 2, January being month 0), not in February (month 1).
\<close>

theorem month_end_clamp_counterexample:
  "getMonth 0 (snd (createMemberDates 0 (at_utc 2025 0 31 0 0 0 0) 1)) = 2
   \<and> getDate 0 (snd (createMemberDates 0 (at_utc 2025 0 31 0 0 0 0) 1)) = 3
   \<and> getMonth 0 (snd (createMemberDates 0 (at_utc 2025 0 31 0 0 0 0) 1)) \<noteq> 1"
proof -
  have e: "snd (createMemberDates 0 (at_utc 2025 0 31 0 0 0 0) 1)
           = setMonth 0 (at_utc 2025 0 31 0 0 0 0) 1"
    by (simp add: createMemberDates_end jan31_fields)
  have "DaysInMonth (2025 + 1 div 12) (1 mod 12) < (31::int)"
    by (simp add: DaysInMonth_def InLeapYear_def)
  then show ?thesis
    unfolding e
    using setMonth_fields(2)[of 0 "at_utc 2025 0 31 0 0 0 0" 1]
    by (simp add: jan31_fields DaysInMonth_def InLeapYear_def)
qed

section \<open>Day Pass: renewal and status\<close>

lemma setHours_at_utc:
  assumes "0 \<le> m" "m \<le> 11" "1 \<le> d" "d \<le> DaysInMonth y m"
    and "0 \<le> MakeTime h mi s ms" "MakeTime h mi s ms < msPerDay"
  shows "setHours 0 (at_utc y m d h mi s ms) h' mi' s' ms' = at_utc y m d h' mi' s' ms'"
  unfolding setHours_def at_utc_fields(1)[OF assms]
  by (simp add: at_utc_def UTC_def)

lemma at_utc_next_day: "at_utc y m d h mi s ms + msPerDay = at_utc y m (d + 1) h mi s ms"
  by (simp add: at_utc_def MakeDay_Suc MakeDate_def distrib_right)

lemma renewDates_day_pass_existing:
  assumes "k_durationMonths pkg = 0"
    and "latestEndDate (allPeriodsOf (m_id member) ps) = Some latest"
  shows "renewDates tz now member pkg ps =
           (setHours tz (latest + msPerDay) 0 0 0 0,
            setHours tz (latest + msPerDay) 23 59 59 999)"
proof -
  have "setHours tz (setHours tz (latest + msPerDay) 0 0 0 0) 23 59 59 999
        = setHours tz (latest + msPerDay) 23 59 59 999"
    by (rule setHours_same_day) (rule Day_setHours_midnight)
  then show ?thesis
    using assms by (simp add: renewDates_def Let_def setDate_next_day)
qed

lemma withTransaction_day_pass_existing:
  assumes "latestEndDate (allPeriodsOf (m_id member) ps) = Some latest"
  shows "withTransactionDayPassDates tz now (Some member) ps =
           (setHours tz (latest + msPerDay) 0 0 0 0,
            setHours tz (latest + msPerDay) 23 59 59 999)"
proof -
  have "setHours tz (setHours tz (latest + msPerDay) 0 0 0 0) 23 59 59 999
        = setHours tz (latest + msPerDay) 23 59 59 999"
    by (rule setHours_same_day) (rule Day_setHours_midnight)
  then show ?thesis
    using assms by (simp add: withTransactionDayPassDates_def Let_def setDate_next_day)
qed

lemma old_day_pass_latest:
  "latestEndDate (allPeriodsOf (m_id scenario_old_day_pass_member) scenario_old_day_pass)
     = Some (at_utc 2025 0 10 23 59 59 999)"
  by (simp add: allPeriodsOf_def scenario_old_day_pass_def scenario_old_day_pass_member_def
      mkDayPass_def mkMember_def)

lemma jan11_start:
  "setHours 0 (at_utc 2025 0 11 23 59 59 999) 0 0 0 0 = at_utc 2025 0 11 0 0 0 0"
  "setHours 0 (at_utc 2025 0 11 23 59 59 999) 23 59 59 999 = at_utc 2025 0 11 23 59 59 999"
  by (rule setHours_at_utc; simp add: DaysInMonth_def MakeTime_def msPerDay_def)+

lemma mar15_start:
  "setHours 0 (at_utc 2025 2 15 10 0 0 0) 0 0 0 0 = at_utc 2025 2 15 0 0 0 0"
  by (rule setHours_at_utc; simp add: DaysInMonth_def MakeTime_def msPerDay_def)

lemma jan11_before_mar15: "at_utc 2025 0 11 23 59 59 999 < at_utc 2025 2 15 0 0 0 0"
  by (simp add: at_utc_def MakeDate_def MakeDay_def MakeTime_def DayFromYear_def
      MonthStart_def InLeapYear_def msPerDay_def)

text \<open>
  Claim C1. A member whose latest period ended on 10 January 2025 renews with a Day Pass
  on 15 March 2025 at 10:00. The new period is 11 January 2025, from midnight to the last
  millisecond of the day, which is over before the current day begins; the claim puts it
  on 15 March. The route \<^verbatim>\<open>with-transaction\<close> computes the same dates.
\<close>

theorem renew_day_pass_after_expiry:
  "renewDates 0 (at_utc 2025 2 15 10 0 0 0) scenario_old_day_pass_member dayPassPackage
       scenario_old_day_pass
     = (at_utc 2025 0 11 0 0 0 0, at_utc 2025 0 11 23 59 59 999)
   \<and> withTransactionDayPassDates 0 (at_utc 2025 2 15 10 0 0 0)
         (Some scenario_old_day_pass_member) scenario_old_day_pass
     = (at_utc 2025 0 11 0 0 0 0, at_utc 2025 0 11 23 59 59 999)
   \<and> at_utc 2025 0 11 23 59 59 999 < setHours 0 (at_utc 2025 2 15 10 0 0 0) 0 0 0 0"
proof -
  have k: "k_durationMonths dayPassPackage = 0" by (simp add: dayPassPackage_def)
  have n: "at_utc 2025 0 10 23 59 59 999 + msPerDay = at_utc 2025 0 11 23 59 59 999"
    by (simp add: at_utc_next_day)
  show ?thesis
    unfolding renewDates_day_pass_existing[OF k old_day_pass_latest]
      withTransaction_day_pass_existing[OF old_day_pass_latest] n jan11_start mar15_start
    using jan11_before_mar15 by simp
qed

text \<open>Status of a Day Pass member on the day of the pass.\<close>

lemma day_pass_today_not_expired:
  assumes "m_endDate member = setHours tz now 23 59 59 999"
  shows "\<not> dayPassExpired tz now member"
  unfolding dayPassExpired_def Let_def setHours_midnight_less_iff assms
    Day_setHours_end_of_day by simp

lemma end_of_day_within_a_day:
  "setHours tz now 23 59 59 999 - now \<le> msPerDay"
  using setHours_midnight_le[of tz now] by (simp add: setHours_end_of_day_eq)

lemma day_pass_today_remaining:
  assumes e: "m_endDate member = setHours tz now 23 59 59 999"
    and p: "p_endDate p = m_endDate member"
  shows "totalRemainingDays now member (activePeriods now (m_id member) [p]) \<le> 2"
proof (cases "activePeriods now (m_id member) [p] = []")
  case True
  have "ceilDays (m_endDate member - now) \<le> 1"
    unfolding e using end_of_day_within_a_day by (rule ceilDays_le_day)
  then show ?thesis by (simp add: totalRemainingDays_fallback[OF True])
next
  case False
  have a: "ceilDays (p_endDate p - now) \<le> 1"
    unfolding p e using end_of_day_within_a_day by (rule ceilDays_le_day)
  have b: "now < p_startDate p \<Longrightarrow> ceilDays (p_endDate p - p_startDate p) \<le> 1"
  proof -
    assume "now < p_startDate p"
    then have "p_endDate p - p_startDate p \<le> msPerDay"
      using end_of_day_within_a_day[of tz now] by (simp add: p e)
    then show ?thesis by (rule ceilDays_le_day)
  qed
  have "periodDays now (m_id member) p \<le> 2"
    using a b by (simp add: periodDays_def)
  then show ?thesis by (simp add: totalRemainingDays_active[OF False])
qed

lemma day_pass_today_status:
  assumes t: "m_membershipType member = ''Day Pass''"
    and e: "m_endDate member = setHours tz now 23 59 59 999"
    and p: "p_endDate p = m_endDate member"
  shows "s_status (searchMember tz now [p] member) = ''expiring_soon''"
proof -
  have "m_endDate member \<le> now + 7 * 24 * 60 * 60 * 1000"
    using end_of_day_within_a_day[of tz now] by (simp add: e msPerDay_def)
  then show ?thesis
    using day_pass_today_not_expired[OF e] day_pass_today_remaining[OF e p] t
    by (simp add: searchMember_def Let_def)
qed

lemma day_pass_today_checkin:
  assumes t: "m_membershipType member = ''Day Pass''"
    and e: "m_endDate member = setHours tz now 23 59 59 999"
    and p: "p_endDate p = m_endDate member"
    and a: "m_isActive member" and st: "membershipPeriods st = [p]"
  shows "\<exists>resp. checkin tz now st member False None = Inr (resp, st)
                \<and> r_status resp = ''expiring_soon''"
proof -
  have "m_endDate member \<le> now + 7 * 24 * 60 * 60 * 1000"
    using end_of_day_within_a_day[of tz now] by (simp add: e msPerDay_def)
  then show ?thesis
    using day_pass_today_not_expired[OF e] day_pass_today_remaining[OF e p] t a
    by (simp add: checkin_def Let_def st)
qed

lemma mar10_end:
  "setHours 0 (at_utc 2025 2 10 22 0 0 0) 23 59 59 999 = at_utc 2025 2 10 23 59 59 999"
  by (rule setHours_at_utc; simp add: DaysInMonth_def MakeTime_def msPerDay_def)

lemma scenario_day_pass_facts:
  "m_membershipType scenario_day_pass_member = ''Day Pass''"
  "m_endDate scenario_day_pass_member = setHours 0 (at_utc 2025 2 10 22 0 0 0) 23 59 59 999"
  "p_endDate scenario_day_pass_today = m_endDate scenario_day_pass_member"
  "m_isActive scenario_day_pass_member"
  by (simp_all add: mar10_end scenario_day_pass_member_def scenario_day_pass_today_def
      mkMember_def mkDayPass_def)

text \<open>
  Claim C4 as stated fails: at 22:00 on the day of the pass the status is
  \<^verbatim>\<open>expiring_soon\<close>, not \<^verbatim>\<open>active\<close>.
\<close>

theorem day_pass_today_active_counterexample:
  "s_status (searchMember 0 (at_utc 2025 2 10 22 0 0 0) [scenario_day_pass_today]
               scenario_day_pass_member) \<noteq> ''active''"
  using day_pass_today_status[OF scenario_day_pass_facts(1-3)] by simp

section \<open>Deleting a member and check-in: results\<close>

lemma deleteMember_Inr:
  assumes "deleteMember i st = Inr st'"
  shows "membershipPeriods st' = filter (\<lambda>p. p_memberId p \<noteq> i) (membershipPeriods st)"
    and "transactions st' = filter (\<lambda>t. t_memberId t \<noteq> i) (transactions st)"
    and "members st' = filter (\<lambda>m. m_id m \<noteq> i) (members st)"
    and "membershipPackages st' = membershipPackages st"
  using assms by (auto simp: deleteMember_def Let_def split: if_splits)

lemma deleteMember_returns:
  "(\<exists>st'. deleteMember i st = Inr st') \<longleftrightarrow> list_ex (\<lambda>m. m_id m = i) (members st)"
  by (simp add: deleteMember_def Let_def)

lemma delete_member_1:
  "\<exists>st'. deleteMember 1 scenario_store = Inr st'"
  unfolding deleteMember_returns by (simp add: scenario_store_def mkMember_def)

text \<open>
  Claim C9, amended. Deleting a member deletes the periods of the member and, with them,
  every transaction of the member; the periods and the transactions of the other members
  stay as they were.
\<close>

theorem deleteMember_deletes_transactions:
  assumes "deleteMember i st = Inr st'"
  shows "membershipPeriods st' = filter (\<lambda>p. p_memberId p \<noteq> i) (membershipPeriods st)
         \<and> transactions st' = filter (\<lambda>t. t_memberId t \<noteq> i) (transactions st)"
  using deleteMember_Inr(1,2)[OF assms] by simp

text \<open>Deleting member 1 of the store with two members leaves the rows of member 2.\<close>

theorem deleteMember_deletes_transactions_witness:
  "\<exists>st'. deleteMember 1 scenario_store = Inr st'
         \<and> membershipPeriods st' = [mkPeriod 2 0 (31 * msPerDay) (Some 2)]
         \<and> transactions st' = [mkTransaction 2 2 150000]"
proof -
  obtain st' where d: "deleteMember 1 scenario_store = Inr st'"
    using delete_member_1 by blast
  have "membershipPeriods st' = [mkPeriod 2 0 (31 * msPerDay) (Some 2)]
        \<and> transactions st' = [mkTransaction 2 2 150000]"
    using deleteMember_deletes_transactions[OF d]
    by (simp add: scenario_store_def mkPeriod_def mkTransaction_def)
  then show ?thesis using d by blast
qed

text \<open>
  Claim C9 as stated fails: transaction 1, which the period of member 1 references, is in
  the store before member 1 is deleted and not after.
\<close>

theorem transactions_kept_counterexample:
  "\<exists>st'. deleteMember 1 scenario_store = Inr st'
         \<and> p_transactionId (hd (membershipPeriods scenario_store)) = Some 1
         \<and> mkTransaction 1 1 150000 \<in> set (transactions scenario_store)
         \<and> mkTransaction 1 1 150000 \<notin> set (transactions st')"
proof -
  obtain st' where d: "deleteMember 1 scenario_store = Inr st'"
    using delete_member_1 by blast
  have "mkTransaction 1 1 150000 \<notin> set (transactions st')"
    unfolding deleteMember_Inr(2)[OF d] by (simp add: mkTransaction_def)
  moreover have "mkTransaction 1 1 150000 \<in> set (transactions scenario_store)"
    by (simp add: scenario_store_def)
  moreover have "p_transactionId (hd (membershipPeriods scenario_store)) = Some 1"
    by (simp add: scenario_store_def mkPeriod_def)
  ultimately show ?thesis using d by blast
qed

text \<open>Check-in: what the response reports when a Day Pass is created.\<close>

lemma Day_le_diff:
  assumes "Day a \<le> Day b"
  shows "a - b < msPerDay"
proof -
  have "a = msPerDay * Day a + TimeWithinDay a" "b = msPerDay * Day b + TimeWithinDay b"
    by (simp_all add: Day_def TimeWithinDay_def)
  moreover have "msPerDay * Day a \<le> msPerDay * Day b"
    using assms msPerDay_pos by simp
  ultimately show ?thesis
    using TimeWithinDay_bounds[of a] TimeWithinDay_bounds[of b] by linarith
qed




lemma checkin_no_day_pass:
  assumes "m_isActive member"
    and "\<not> (if m_membershipType member = ''Day Pass'' then dayPassExpired tz now member
            else m_endDate member < now)"
  shows "\<exists>resp0. checkin tz now st member False pm = Inr (resp0, st)
           \<and> r_daysRemaining resp0 =
               max 0 (totalRemainingDays now member
                        (activePeriods now (m_id member) (membershipPeriods st)))"
  using assms by (simp add: checkin_def Let_def)



lemma checkin_daysRemaining_search:
  assumes "checkin tz now st member False pm = Inr (resp, st')"
  shows "r_daysRemaining resp = s_daysRemaining (searchMember tz now (membershipPeriods st) member)"
  using assms
  by (auto simp: checkin_def s_daysRemaining_eq Let_def split: if_splits)

lemma daysRemaining_antitone_search:
  assumes wf: "\<forall>p\<in>set ps. p_startDate p \<le> p_endDate p"
    and cache: "\<exists>p\<in>set ps. p_memberId p = m_id member \<and> p_status p = ''active''
                           \<and> m_endDate member \<le> p_endDate p"
    and t: "t1 \<le> t2"
  shows "s_daysRemaining (searchMember tz t2 ps member)
           \<le> s_daysRemaining (searchMember tz t1 ps member)"
proof (cases "activePeriods t2 (m_id member) ps = []")
  case True
  obtain p where p: "p \<in> set ps" "p_memberId p = m_id member" "p_status p = ''active''"
      "m_endDate member \<le> p_endDate p"
    using cache by blast
  have "\<not> p_endDate p > t2"
    using True p(1,2,3) unfolding activePeriods_empty by blast
  then have "m_endDate member - t2 \<le> 0" using p(4) by simp
  then have "ceilDays (m_endDate member - t2) \<le> 0" by (rule ceilDays_nonpos)
  then have "s_daysRemaining (searchMember tz t2 ps member) = 0"
    by (simp add: s_daysRemaining_eq totalRemainingDays_fallback[OF True])
  then show ?thesis by (simp add: s_daysRemaining_eq)
next
  case False
  then obtain p where "p \<in> set ps" "p_memberId p = m_id member" "p_status p = ''active''"
      "p_endDate p > t2"
    unfolding activePeriods_empty by blast
  then have "\<not> (\<forall>p\<in>set ps. \<not> (p_memberId p = m_id member \<and> p_status p = ''active''
                                   \<and> p_endDate p > t1))"
    using t by force
  then have ne1: "activePeriods t1 (m_id member) ps \<noteq> []"
    unfolding activePeriods_empty .
  show ?thesis
    unfolding s_daysRemaining_eq totalRemainingDays_active[OF False]
      totalRemainingDays_active[OF ne1]
    using sum_periodDays_antitone[OF wf t, of "m_id member"] by simp
qed

text \<open>
  Claim C8, amended. When every period ends no earlier than it starts, and the member's
  \<open>endDate\<close> is not later than the end of one of the member's periods of status
  \<^verbatim>\<open>active\<close>, the days remaining reported at a later instant are no more than those
  reported at an earlier one, in the search and in two check-ins that both let the member
  in.
\<close>

theorem daysRemaining_antitone:
  assumes wf: "\<forall>p\<in>set (membershipPeriods st). p_startDate p \<le> p_endDate p"
    and cache: "\<exists>p\<in>set (membershipPeriods st). p_memberId p = m_id member
                  \<and> p_status p = ''active'' \<and> m_endDate member \<le> p_endDate p"
    and t: "t1 \<le> t2"
  shows "s_daysRemaining (searchMember tz t2 (membershipPeriods st) member)
           \<le> s_daysRemaining (searchMember tz t1 (membershipPeriods st) member)
         \<and> (checkin tz t1 st member False pm = Inr (r1, s1)
              \<longrightarrow> checkin tz t2 st member False pm = Inr (r2, s2)
              \<longrightarrow> r_daysRemaining r2 \<le> r_daysRemaining r1)"
  using daysRemaining_antitone_search[OF wf cache t, of tz]
  by (auto simp: checkin_daysRemaining_search)

lemma edited_end_store:
  "membershipPeriods (scenario_store\<lparr>membershipPeriods := scenario_edited_end\<rparr>)
     = scenario_edited_end"
  by simp

lemma edited_end_checkin:
  "\<exists>r. checkin 0 (5 * msPerDay) (scenario_store\<lparr>membershipPeriods := scenario_edited_end\<rparr>)
         (mkMember ''Monthly'' (100 * msPerDay)) False None
       = Inr (r, scenario_store\<lparr>membershipPeriods := scenario_edited_end\<rparr>)
       \<and> r_daysRemaining r = 5"
  "\<exists>r. checkin 0 (20 * msPerDay) (scenario_store\<lparr>membershipPeriods := scenario_edited_end\<rparr>)
         (mkMember ''Monthly'' (100 * msPerDay)) False None
       = Inr (r, scenario_store\<lparr>membershipPeriods := scenario_edited_end\<rparr>)
       \<and> r_daysRemaining r = 80"
proof -
  let ?st = "scenario_store\<lparr>membershipPeriods := scenario_edited_end\<rparr>"
  let ?m = "mkMember ''Monthly'' (100 * msPerDay)"
  have a: "m_isActive ?m" by (simp add: mkMember_def)
  have e: "\<not> (if m_membershipType ?m = ''Day Pass'' then dayPassExpired 0 now ?m
               else m_endDate ?m < now)" if "now \<le> 100 * msPerDay" for now
    using that by (simp add: mkMember_def)
  have e5: "(5::int) * msPerDay \<le> 100 * msPerDay" and e20: "(20::int) * msPerDay \<le> 100 * msPerDay"
    by (simp_all add: msPerDay_def)
  obtain r5 where r5: "checkin 0 (5 * msPerDay) ?st ?m False None = Inr (r5, ?st)"
    using checkin_no_day_pass[OF a e[OF e5]] by blast
  obtain r20 where r20: "checkin 0 (20 * msPerDay) ?st ?m False None = Inr (r20, ?st)"
    using checkin_no_day_pass[OF a e[OF e20]] by blast
  show "\<exists>r. checkin 0 (5 * msPerDay) ?st ?m False None = Inr (r, ?st) \<and> r_daysRemaining r = 5"
    using r5 checkin_daysRemaining_search[OF r5] by (simp add: edited_end_values)
  show "\<exists>r. checkin 0 (20 * msPerDay) ?st ?m False None = Inr (r, ?st) \<and> r_daysRemaining r = 80"
    using r20 checkin_daysRemaining_search[OF r20] by (simp add: edited_end_values)
qed

text \<open>
  A period from day 0 to day 10 with the member's \<open>endDate\<close> at day 10: 5 days remain at
  day 5 and none at day 20.
\<close>

theorem daysRemaining_antitone_witness:
  "list_all (\<lambda>p. p_startDate p \<le> p_endDate p)
     (membershipPeriods (scenario_store\<lparr>membershipPeriods := scenario_edited_end\<rparr>))
   \<and> (\<exists>p\<in>set (membershipPeriods (scenario_store\<lparr>membershipPeriods := scenario_edited_end\<rparr>)).
          p_memberId p = m_id (mkMember ''Monthly'' (10 * msPerDay))
          \<and> p_status p = ''active''
          \<and> m_endDate (mkMember ''Monthly'' (10 * msPerDay)) \<le> p_endDate p)
   \<and> 5 * msPerDay \<le> 20 * msPerDay
   \<and> s_daysRemaining (searchMember 0 (20 * msPerDay) scenario_edited_end
         (mkMember ''Monthly'' (10 * msPerDay))) = 0
   \<and> s_daysRemaining (searchMember 0 (5 * msPerDay) scenario_edited_end
         (mkMember ''Monthly'' (10 * msPerDay))) = 5"
proof -
  let ?st = "scenario_store\<lparr>membershipPeriods := scenario_edited_end\<rparr>"
  have a: "\<forall>p\<in>set (membershipPeriods ?st). p_startDate p \<le> p_endDate p"
    by (simp add: scenario_edited_end_def mkPeriod_def msPerDay_def)
  have b: "\<exists>p\<in>set (membershipPeriods ?st).
             p_memberId p = m_id (mkMember ''Monthly'' (10 * msPerDay))
          \<and> p_status p = ''active''
          \<and> m_endDate (mkMember ''Monthly'' (10 * msPerDay)) \<le> p_endDate p"
    by (simp add: scenario_edited_end_def mkPeriod_def mkMember_def)
  have c: "5 * msPerDay \<le> 20 * msPerDay" by (simp add: msPerDay_def)
  have v: "s_daysRemaining (searchMember 0 (5 * msPerDay) scenario_edited_end
         (mkMember ''Monthly'' (10 * msPerDay))) = 5"
    by (rule edited_end_values(3))
  have "s_daysRemaining (searchMember 0 (20 * msPerDay) scenario_edited_end
         (mkMember ''Monthly'' (10 * msPerDay))) \<le> 5"
    using daysRemaining_antitone[OF a b c, of 0] by (simp add: v)
  moreover have "0 \<le> s_daysRemaining (searchMember 0 (20 * msPerDay) scenario_edited_end
         (mkMember ''Monthly'' (10 * msPerDay)))"
    by (simp add: s_daysRemaining_eq)
  ultimately show ?thesis
    using a b c v by (simp add: list_all_iff edited_end_values(4))
qed

text \<open>
  Claim C8 as stated fails when the member's \<open>endDate\<close> is later than every period: with
  one period from day 0 to day 10 and \<open>endDate\<close> at day 100, both check-ins let the
  member in, and 5 days remain at day 5 and 80 at day 20.
\<close>

theorem daysRemaining_antitone_counterexample:
  "scenario_edited_end \<noteq> [] \<and> 5 * msPerDay \<le> 20 * msPerDay
   \<and> (\<exists>r. checkin 0 (5 * msPerDay) (scenario_store\<lparr>membershipPeriods := scenario_edited_end\<rparr>)
            (mkMember ''Monthly'' (100 * msPerDay)) False None
          = Inr (r, scenario_store\<lparr>membershipPeriods := scenario_edited_end\<rparr>)
          \<and> r_daysRemaining r = 5)
   \<and> (\<exists>r. checkin 0 (20 * msPerDay) (scenario_store\<lparr>membershipPeriods := scenario_edited_end\<rparr>)
            (mkMember ''Monthly'' (100 * msPerDay)) False None
          = Inr (r, scenario_store\<lparr>membershipPeriods := scenario_edited_end\<rparr>)
          \<and> r_daysRemaining r = 80)
   \<and> \<not> s_daysRemaining (searchMember 0 (20 * msPerDay) scenario_edited_end
           (mkMember ''Monthly'' (100 * msPerDay)))
         \<le> s_daysRemaining (searchMember 0 (5 * msPerDay) scenario_edited_end
           (mkMember ''Monthly'' (100 * msPerDay)))"
  using edited_end_checkin
  by (simp add: edited_end_values) (simp add: scenario_edited_end_def msPerDay_def)

section \<open>Days remaining, Day Pass status and check-in with a Day Pass: results\<close>
















text \<open>The expiry test of a Day Pass member looks at the calendar days only.\<close>

lemma dayPassExpired_iff:
  "dayPassExpired tz now member
     \<longleftrightarrow> Day (LocalTime tz (m_endDate member)) < Day (LocalTime tz now)"
  by (simp add: dayPassExpired_def Let_def setHours_midnight_less_iff)

lemma search_day_pass_expired_iff:
  assumes "m_membershipType member = ''Day Pass''"
  shows "s_status (searchMember tz now ps member) = ''expired''
           \<longleftrightarrow> Day (LocalTime tz (m_endDate member)) < Day (LocalTime tz now)"
  using assms by (simp add: searchMember_def Let_def dayPassExpired_iff)

lemma checkin_day_pass_expired_iff:
  assumes "m_membershipType member = ''Day Pass''" and "m_isActive member"
  shows "checkin tz now st member c pm = Inl MembershipExpired
           \<longleftrightarrow> Day (LocalTime tz (m_endDate member)) < Day (LocalTime tz now)"
  using assms
  by (auto simp: checkin_def Let_def dayPassExpired_iff split: option.splits)

lemma same_day_diff:
  assumes "Day (LocalTime tz a) = Day (LocalTime tz b)"
  shows "a - b \<le> msPerDay"
  using Day_le_diff[of "LocalTime tz a" "LocalTime tz b"] assms by (simp add: LocalTime_def)

lemma same_day_remaining:
  assumes d: "Day (LocalTime tz (m_endDate member)) = Day (LocalTime tz now)"
    and p: "p_endDate p = m_endDate member"
  shows "totalRemainingDays now member (activePeriods now (m_id member) [p]) \<le> 2"
proof (cases "activePeriods now (m_id member) [p] = []")
  case True
  have "ceilDays (m_endDate member - now) \<le> 1"
    using same_day_diff[OF d] by (rule ceilDays_le_day)
  then show ?thesis by (simp add: totalRemainingDays_fallback[OF True])
next
  case False
  have a: "ceilDays (p_endDate p - now) \<le> 1"
    unfolding p using same_day_diff[OF d] by (rule ceilDays_le_day)
  have b: "now < p_startDate p \<Longrightarrow> ceilDays (p_endDate p - p_startDate p) \<le> 1"
  proof -
    assume "now < p_startDate p"
    then have "p_endDate p - p_startDate p \<le> msPerDay"
      using same_day_diff[OF d] by (simp add: p)
    then show ?thesis by (rule ceilDays_le_day)
  qed
  have "periodDays now (m_id member) p \<le> 2"
    using a b by (simp add: periodDays_def)
  then show ?thesis by (simp add: totalRemainingDays_active[OF False])
qed

lemma same_day_status:
  assumes t: "m_membershipType member = ''Day Pass''"
    and d: "Day (LocalTime tz (m_endDate member)) = Day (LocalTime tz now)"
    and p: "p_endDate p = m_endDate member"
  shows "s_status (searchMember tz now [p] member) = ''expiring_soon''"
    and "0 \<le> s_daysRemaining (searchMember tz now [p] member)"
    and "s_daysRemaining (searchMember tz now [p] member) \<le> 2"
    and "m_isActive member \<Longrightarrow> membershipPeriods st = [p] \<Longrightarrow>
           \<exists>resp. checkin tz now st member False None = Inr (resp, st)
                  \<and> r_status resp = ''expiring_soon''"
proof -
  have w: "m_endDate member \<le> now + 7 * 24 * 60 * 60 * 1000"
    using same_day_diff[OF d] by (simp add: msPerDay_def)
  have n: "\<not> dayPassExpired tz now member"
    using d by (simp add: dayPassExpired_iff)
  note r = same_day_remaining[OF d p]
  show "s_status (searchMember tz now [p] member) = ''expiring_soon''"
    using w n r t by (simp add: searchMember_def Let_def)
  show "0 \<le> s_daysRemaining (searchMember tz now [p] member)"
    by (simp add: s_daysRemaining_eq)
  show "s_daysRemaining (searchMember tz now [p] member) \<le> 2"
    using r by (simp add: s_daysRemaining_eq)
  show "\<exists>resp. checkin tz now st member False None = Inr (resp, st)
               \<and> r_status resp = ''expiring_soon''"
    if "m_isActive member" "membershipPeriods st = [p]"
    using w n r t that by (simp add: checkin_def Let_def)
qed

text \<open>
  Claim C4, amended. For a Day Pass member the expiry test compares dates only: the
  member is \<^verbatim>\<open>expired\<close>, in the search and at check-in, exactly when the calendar day
  of \<open>endDate\<close> is before the calendar day of \<open>now\<close>. With \<open>endDate\<close> in the current day
  (at 23:59:59.999 or earlier, before or after \<open>now\<close>) and a single period that ends
  then, the status is \<^verbatim>\<open>expiring_soon\<close>, not \<^verbatim>\<open>active\<close>: the end is within 7 days,
  and the days remaining are between 0 and 2.
\<close>

theorem day_pass_date_only_status:
  assumes "m_membershipType member = ''Day Pass''"
  shows "(s_status (searchMember tz now ps member) = ''expired''
            \<longleftrightarrow> Day (LocalTime tz (m_endDate member)) < Day (LocalTime tz now))
         \<and> (m_isActive member \<longrightarrow>
               (checkin tz now st member c pm = Inl MembershipExpired
                  \<longleftrightarrow> Day (LocalTime tz (m_endDate member)) < Day (LocalTime tz now)))
         \<and> (Day (LocalTime tz (m_endDate member)) = Day (LocalTime tz now)
              \<longrightarrow> p_endDate p = m_endDate member
              \<longrightarrow> s_status (searchMember tz now [p] member) = ''expiring_soon''
                  \<and> 0 \<le> s_daysRemaining (searchMember tz now [p] member)
                  \<and> s_daysRemaining (searchMember tz now [p] member) \<le> 2
                  \<and> (m_isActive member \<longrightarrow> membershipPeriods st = [p]
                       \<longrightarrow> (\<exists>resp. checkin tz now st member False None = Inr (resp, st)
                                   \<and> r_status resp = ''expiring_soon'')))"
  using search_day_pass_expired_iff[OF assms, where tz = tz and now = now and ps = ps]
    checkin_day_pass_expired_iff[OF assms, where tz = tz and now = now and st = st
      and c = c and pm = pm]
    same_day_status(1-3)[OF assms, where tz = tz and now = now and p = p]
    same_day_status(4)[OF assms, where tz = tz and now = now and p = p and st = st]
  by blast

lemma march_10_days:
  "Day (LocalTime 0 (at_utc 2025 2 10 22 0 0 0)) = MakeDay 2025 2 10"
  "Day (LocalTime 0 (at_utc 2025 2 10 12 0 0 0)) = MakeDay 2025 2 10"
  "Day (LocalTime 0 (at_utc 2025 2 10 23 59 59 999)) = MakeDay 2025 2 10"
  by (rule at_utc_fields(1); simp add: DaysInMonth_def MakeTime_def msPerDay_def)+

lemma scenario_day_pass_values:
  "s_daysRemaining (searchMember 0 (at_utc 2025 2 10 22 0 0 0) [scenario_day_pass_today]
      scenario_day_pass_member) = 1"
  "m_endDate scenario_noon_member < at_utc 2025 2 10 22 0 0 0"
  "s_status (searchMember 0 (at_utc 2025 2 10 22 0 0 0) [scenario_noon_period]
      scenario_noon_monthly) = ''expired''"
  by (simp_all add: searchMember_def totalRemainingDays_def activePeriods_def Let_def
      scenario_day_pass_today_def scenario_day_pass_member_def scenario_noon_member_def
      scenario_noon_period_def scenario_noon_monthly_def mkDayPass_def mkMember_def
      at_utc_values_march ceilDays_def msPerDay_def)

text \<open>
  The Day Pass of 10 March 2025 at 22:00 of that day: \<^verbatim>\<open>expiring_soon\<close>, 1 day
  remaining. With \<open>endDate\<close> at noon of that day the Day Pass member is
  \<^verbatim>\<open>expiring_soon\<close> at 22:00 as well, where a member of a monthly product with the same
  dates is \<^verbatim>\<open>expired\<close>.
\<close>

theorem day_pass_date_only_status_witness:
  "m_membershipType scenario_day_pass_member = ''Day Pass''
   \<and> Day (LocalTime 0 (m_endDate scenario_day_pass_member))
       = Day (LocalTime 0 (at_utc 2025 2 10 22 0 0 0))
   \<and> s_status (searchMember 0 (at_utc 2025 2 10 22 0 0 0) [scenario_day_pass_today]
                 scenario_day_pass_member) = ''expiring_soon''
   \<and> s_daysRemaining (searchMember 0 (at_utc 2025 2 10 22 0 0 0) [scenario_day_pass_today]
                 scenario_day_pass_member) = 1
   \<and> m_membershipType scenario_noon_member = ''Day Pass''
   \<and> m_endDate scenario_noon_member < at_utc 2025 2 10 22 0 0 0
   \<and> s_status (searchMember 0 (at_utc 2025 2 10 22 0 0 0) [scenario_noon_period]
                 scenario_noon_member) = ''expiring_soon''
   \<and> s_status (searchMember 0 (at_utc 2025 2 10 22 0 0 0) [scenario_noon_period]
                 scenario_noon_monthly) = ''expired''"
proof -
  have t1: "m_membershipType scenario_day_pass_member = ''Day Pass''"
    and t2: "m_membershipType scenario_noon_member = ''Day Pass''"
    by (simp_all add: scenario_day_pass_member_def scenario_noon_member_def mkMember_def)
  have d1: "Day (LocalTime 0 (m_endDate scenario_day_pass_member))
            = Day (LocalTime 0 (at_utc 2025 2 10 22 0 0 0))"
    and d2: "Day (LocalTime 0 (m_endDate scenario_noon_member))
            = Day (LocalTime 0 (at_utc 2025 2 10 22 0 0 0))"
    by (simp_all add: scenario_day_pass_member_def scenario_noon_member_def mkMember_def
        march_10_days)
  have p1: "p_endDate scenario_day_pass_today = m_endDate scenario_day_pass_member"
    and p2: "p_endDate scenario_noon_period = m_endDate scenario_noon_member"
    by (simp_all add: scenario_day_pass_today_def scenario_day_pass_member_def
        scenario_noon_period_def scenario_noon_member_def mkDayPass_def mkMember_def)
  have a: "s_status (searchMember 0 (at_utc 2025 2 10 22 0 0 0) [scenario_day_pass_today]
                 scenario_day_pass_member) = ''expiring_soon''"
    using day_pass_date_only_status[OF t1, where tz = 0 and now = "at_utc 2025 2 10 22 0 0 0"
        and p = scenario_day_pass_today] d1 p1 by blast
  have b: "s_status (searchMember 0 (at_utc 2025 2 10 22 0 0 0) [scenario_noon_period]
                 scenario_noon_member) = ''expiring_soon''"
    using day_pass_date_only_status[OF t2, where tz = 0 and now = "at_utc 2025 2 10 22 0 0 0"
        and p = scenario_noon_period] d2 p2 by blast
  show ?thesis
    using t1 t2 d1 a b scenario_day_pass_values by blast
qed

end
